theory Spec2Isabelle
  imports Main
begin

section \<open>JavaScript strings and regular expressions\<close>

text \<open>
  A JavaScript string is a sequence of code units. The model uses \<open>string\<close>, so it covers
  the code units \<open>0x00\<close> to \<open>0xFF\<close> (Latin-1). The functions below are the built-ins
  the repository calls, written for that range.
\<close>

subsection \<open>Character classes\<close>

text \<open>
  \<open>isWhiteSpace\<close> is the set removed by \<^verbatim>\<open>trim()\<close> and matched by \<^verbatim>\<open>\s\<close>: tab, line
  feed, vertical tab, form feed, carriage return, space and no-break space.
\<close>

definition isWhiteSpace :: "char \<Rightarrow> bool" where
  "isWhiteSpace c =
     (c \<in> {CHR 0x09, CHR 0x0A, CHR 0x0B, CHR 0x0C, CHR 0x0D, CHR 0x20, CHR 0xA0})"

text \<open>A range of code units, as in \<^verbatim>\<open>[A-Z]\<close>.\<close>

definition in_range :: "char \<Rightarrow> char \<Rightarrow> char \<Rightarrow> bool" where
  "in_range a b x = ((of_char a :: nat) \<le> of_char x \<and> (of_char x :: nat) \<le> of_char b)"

definition isDigit :: "char \<Rightarrow> bool" where
  "isDigit c = in_range CHR ''0'' CHR ''9'' c"

definition isUpper :: "char \<Rightarrow> bool" where
  "isUpper c = in_range CHR ''A'' CHR ''Z'' c"

definition isLower :: "char \<Rightarrow> bool" where
  "isLower c = in_range CHR ''a'' CHR ''z'' c"

definition isWordChar :: "char \<Rightarrow> bool" where
  "isWordChar c = (isUpper c \<or> isLower c \<or> isDigit c \<or> c = CHR ''_'')"

text \<open>
  \<open>upperChar\<close> maps \<open>a-z\<close> to \<open>A-Z\<close>. \<^verbatim>\<open>toUpperCase()\<close> also maps the sharp s
  (\<open>0xDF\<close>) to \<open>SS\<close>. Every other character above \<open>0x7F\<close> has an upper-case form
  that is again outside ASCII; the model keeps such a character as it is, which stands
  for that form (the callers only test the result against ASCII classes).
\<close>

definition upperChar :: "char \<Rightarrow> char" where
  "upperChar c =
     (case map_of (zip ''abcdefghijklmnopqrstuvwxyz'' ''ABCDEFGHIJKLMNOPQRSTUVWXYZ'') c of
        Some u \<Rightarrow> u
      | None \<Rightarrow> c)"

definition toUpperCase :: "string \<Rightarrow> string" where
  "toUpperCase s = concat (map (\<lambda>c. if c = CHR 0xDF then ''SS'' else [upperChar c]) s)"

subsection \<open>String built-ins\<close>

definition trim :: "string \<Rightarrow> string" where
  "trim s = rev (dropWhile isWhiteSpace (rev (dropWhile isWhiteSpace s)))"

fun startsWith :: "string \<Rightarrow> string \<Rightarrow> bool" where
  "startsWith s [] = True"
| "startsWith [] (p # ps) = False"
| "startsWith (c # cs) (p # ps) = (c = p \<and> startsWith cs ps)"

text \<open>\<^verbatim>\<open>s.includes(sub)\<close>\<close>

fun includes_str :: "string \<Rightarrow> string \<Rightarrow> bool" where
  "includes_str [] sub = (sub = [])"
| "includes_str (c # cs) sub = (startsWith (c # cs) sub \<or> includes_str cs sub)"

text \<open>\<^verbatim>\<open>s.split(d)\<close> for a one-character separator: never the empty list.\<close>

fun split_on :: "char \<Rightarrow> string \<Rightarrow> string list" where
  "split_on d [] = [[]]"
| "split_on d (c # cs) =
     (if c = d then [] # split_on d cs
      else (case split_on d cs of [] \<Rightarrow> [[c]] | l # ls \<Rightarrow> (c # l) # ls))"

text \<open>\<^verbatim>\<open>lines.join(d)\<close>\<close>

fun join_with :: "string \<Rightarrow> string list \<Rightarrow> string" where
  "join_with d [] = []"
| "join_with d [l] = l"
| "join_with d (l # ls) = l @ d @ join_with d ls"

text \<open>\<^verbatim>\<open>s.slice(-n)\<close> for \<open>n > 0\<close>: the last \<open>n\<close> code units.\<close>

definition slice_last :: "nat \<Rightarrow> string \<Rightarrow> string" where
  "slice_last n s = drop (length s - n) s"

text \<open>
  \<^verbatim>\<open>s.replace(pattern, replacement)\<close> with a string pattern replaces the first
  occurrence. The replacement is a template: \<^verbatim>\<open>$$\<close> stands for a dollar sign,
  \<^verbatim>\<open>$&\<close> for the matched text, \<^verbatim>\<open>$`\<close> and \<^verbatim>\<open>$'\<close> for the text before and after the
  match; a string pattern has no groups, so any other \<^verbatim>\<open>$\<close> is literal.
\<close>

fun split_at_first :: "string \<Rightarrow> string \<Rightarrow> (string \<times> string) option" where
  "split_at_first sub [] = (if sub = [] then Some ([], []) else None)"
| "split_at_first sub (c # cs) =
     (if startsWith (c # cs) sub then Some ([], drop (length sub) (c # cs))
      else map_option (\<lambda>(p, r). (c # p, r)) (split_at_first sub cs))"

fun expand_replacement :: "string \<Rightarrow> string \<Rightarrow> string \<Rightarrow> string \<Rightarrow> string" where
  "expand_replacement [] m b a = []"
| "expand_replacement [c] m b a = [c]"
| "expand_replacement (c # d # t) m b a =
     (if c \<noteq> CHR ''$'' then c # expand_replacement (d # t) m b a
      else if d = CHR ''$'' then CHR ''$'' # expand_replacement t m b a
      else if d = CHR ''&'' then m @ expand_replacement t m b a
      else if d = CHR 0x60 then b @ expand_replacement t m b a
      else if d = CHR 0x27 then a @ expand_replacement t m b a
      else c # expand_replacement (d # t) m b a)"

definition replace_str :: "string \<Rightarrow> string \<Rightarrow> string \<Rightarrow> string" where
  "replace_str s pat repl =
     (case split_at_first pat s of
        None \<Rightarrow> s
      | Some (bef, aft) \<Rightarrow> bef @ expand_replacement repl pat bef aft @ aft)"

subsection \<open>Numbers\<close>

text \<open>
  A JavaScript number is a double. The model holds a number with an integral value by
  that value, and the value \<^verbatim>\<open>Infinity\<close>. Integers below \<open>2^53\<close> are doubles; a larger
  integer is rounded to the nearest double, that is to 53 significant bits, a tie going
  to the even one, and to \<^verbatim>\<open>Infinity\<close> when the result reaches \<open>2^1024\<close>, that is, when
  it has more than 1024 bits.
\<close>

datatype js_number = Finite int | Infinity

function bit_length :: "int \<Rightarrow> nat" where
  "bit_length n = (if n \<le> 0 then 0 else Suc (bit_length (n div 2)))"
  by pat_completeness auto
termination
  by (relation "measure nat") auto

declare bit_length.simps [simp del]

definition round_to_double :: "int \<Rightarrow> js_number" where
  "round_to_double n =
     (if n < 2 ^ 53 then Finite n
      else
        (let e = bit_length n - 53;
             q = n div 2 ^ e;
             r = n mod 2 ^ e;
             q' = (if 2 * r > 2 ^ e \<or> (2 * r = 2 ^ e \<and> odd q) then q + 1 else q)
         in if bit_length (q' * 2 ^ e) > 1024 then Infinity else Finite (q' * 2 ^ e)))"

text \<open>\<^verbatim>\<open>parseInt(digits, 10)\<close> for a string of decimal digits.\<close>

definition digit_value :: "char \<Rightarrow> int" where
  "digit_value c = (case map_of (zip ''0123456789'' [0, 1, 2, 3, 4, 5, 6, 7, 8, 9]) c of
                      Some v \<Rightarrow> v | None \<Rightarrow> 0)"

definition decimal_value :: "string \<Rightarrow> int" where
  "decimal_value ds = foldl (\<lambda>acc c. acc * 10 + digit_value c) 0 ds"

definition parseInt10 :: "string \<Rightarrow> js_number" where
  "parseInt10 ds = round_to_double (decimal_value ds)"

text \<open>
  The string form of a number, as in a template string. Below \<open>2^53\<close> it is the decimal
  numeral. From there on it is the shortest decimal that rounds to the number: with as
  few significant digits \<open>k\<close> as possible, and of the two candidates with \<open>k\<close> digits
  the one nearer to the number; its digits are followed by zeros up to 21 digits, and
  written with an exponent beyond that.
\<close>

function show_decimal :: "int \<Rightarrow> string" where
  "show_decimal n = (if n < 10 then [''0123456789'' ! nat n]
                     else show_decimal (n div 10) @ [''0123456789'' ! nat (n mod 10)])"
  by pat_completeness auto
termination
  by (relation "measure nat") auto

declare show_decimal.simps [simp del]

definition candidates :: "int \<Rightarrow> nat \<Rightarrow> int list" where
  "candidates x k =
     (let p = 10 ^ (length (show_decimal x) - k);
          below = (x div p) * p;
          above = below + p
      in if x - below \<le> above - x then [below, above] else [above, below])"

definition shortest_decimal :: "int \<Rightarrow> int" where
  "shortest_decimal x =
     (case filter (\<lambda>m. round_to_double m = Finite x)
                  (concat (map (candidates x) [1..<18])) of
        [] \<Rightarrow> x
      | m # ms \<Rightarrow> m)"

definition show_magnitude :: "int \<Rightarrow> string" where
  "show_magnitude x =
     (if x < 2 ^ 53 then show_decimal x
      else
        (let ds = show_decimal (shortest_decimal x);
             significant = rev (dropWhile (\<lambda>c. c = CHR ''0'') (rev ds))
         in if length ds \<le> 21 then ds
            else (if length significant = 1 then significant
                  else hd significant # CHR ''.'' # tl significant)
                 @ ''e+'' @ show_decimal (int (length ds) - 1)))"

fun show_number :: "js_number \<Rightarrow> string" where
  "show_number Infinity = ''Infinity''"
| "show_number (Finite i) =
     (if i < 0 then CHR ''-'' # show_magnitude (- i) else show_magnitude i)"

subsection \<open>Regular expressions\<close>

text \<open>
  The source's regular expressions are written as data and run by a backtracking
  matcher with JavaScript's priorities: alternatives left to right, quantifiers greedy,
  the leftmost start position first. \<open>rmatch\<close> lists every way to match at the start of
  the input, best first, as the remaining input and the groups captured.
  With the flag \<^verbatim>\<open>i\<close> (\<open>ci\<close>) a literal matches both cases of an ASCII letter; no
  character above \<open>0x7F\<close> is folded onto an ASCII letter.
\<close>

datatype cclass =
    Lit char
  | AnyChar
  | Dot
  | Space
  | Digit
  | WordChar
  | Range char char
  | NoneOf "cclass list"

text \<open>
  \<open>AnyChar\<close> is \<^verbatim>\<open>[\s\S]\<close>, \<open>Dot\<close> is \<^verbatim>\<open>.\<close> (no line terminator),
  \<open>NoneOf\<close> is a negated class \<^verbatim>\<open>[^...]\<close>.
\<close>

fun cmatch :: "bool \<Rightarrow> cclass \<Rightarrow> char \<Rightarrow> bool" where
  "cmatch ci (Lit c) x = (if ci then upperChar c = upperChar x else c = x)"
| "cmatch ci AnyChar x = True"
| "cmatch ci Dot x = (x \<noteq> CHR 0x0A \<and> x \<noteq> CHR 0x0D)"
| "cmatch ci Space x = isWhiteSpace x"
| "cmatch ci Digit x = isDigit x"
| "cmatch ci WordChar x = isWordChar x"
| "cmatch ci (Range a b) x = in_range a b x"
| "cmatch ci (NoneOf cs) x = (\<not> list_ex (\<lambda>c. cmatch ci c x) cs)"

datatype regex =
    Atom cclass
  | Str string
  | Seq regex regex
  | Alt regex regex
  | Opt regex
  | Star regex
  | Plus regex
  | Group nat regex

type_synonym captures = "(nat \<times> string) list"
type_synonym mstate = "string \<times> captures"

text \<open>Greedy iteration; an iteration that consumes nothing is not repeated.\<close>

primrec star :: "(mstate \<Rightarrow> mstate list) \<Rightarrow> nat \<Rightarrow> mstate \<Rightarrow> mstate list" where
  "star f 0 st = [st]"
| "star f (Suc n) st =
     concat (map (\<lambda>st'. if length (fst st') < length (fst st) then star f n st' else [])
                 (f st))
     @ [st]"

fun str_match :: "bool \<Rightarrow> string \<Rightarrow> string \<Rightarrow> string option" where
  "str_match ci [] s = Some s"
| "str_match ci (p # ps) [] = None"
| "str_match ci (p # ps) (c # cs) =
     (if cmatch ci (Lit p) c then str_match ci ps cs else None)"

primrec rmatch :: "bool \<Rightarrow> regex \<Rightarrow> mstate \<Rightarrow> mstate list" where
  "rmatch ci (Atom k) =
     (\<lambda>st. case fst st of
             [] \<Rightarrow> []
           | x # xs \<Rightarrow> if cmatch ci k x then [(xs, snd st)] else [])"
| "rmatch ci (Str p) =
     (\<lambda>st. case str_match ci p (fst st) of None \<Rightarrow> [] | Some r \<Rightarrow> [(r, snd st)])"
| "rmatch ci (Seq a b) = (\<lambda>st. concat (map (rmatch ci b) (rmatch ci a st)))"
| "rmatch ci (Alt a b) = (\<lambda>st. rmatch ci a st @ rmatch ci b st)"
| "rmatch ci (Opt a) = (\<lambda>st. rmatch ci a st @ [st])"
| "rmatch ci (Star a) = (\<lambda>st. star (rmatch ci a) (length (fst st)) st)"
| "rmatch ci (Plus a) =
     (\<lambda>st. concat (map (\<lambda>st'. star (rmatch ci a) (length (fst st')) st') (rmatch ci a st)))"
| "rmatch ci (Group n a) =
     (\<lambda>st. map (\<lambda>st'. (fst st',
                        (n, take (length (fst st) - length (fst st')) (fst st)) # snd st'))
                (rmatch ci a st))"

fun seqs :: "regex list \<Rightarrow> regex" where
  "seqs [] = Str []"
| "seqs [r] = r"
| "seqs (r # rs) = Seq r (seqs rs)"

fun alts :: "regex list \<Rightarrow> regex" where
  "alts [] = Atom (NoneOf [AnyChar])"
| "alts [r] = r"
| "alts (r # rs) = Alt r (alts rs)"

text \<open>
  \<^verbatim>\<open>s.match(re)\<close> / \<^verbatim>\<open>re.exec(s)\<close> without the flag \<^verbatim>\<open>g\<close>: the text before the match,
  the match, the text after it and the groups; \<open>None\<close> is \<^verbatim>\<open>null\<close>.
\<close>

record match_result =
  before :: string
  matched :: string
  after :: string
  groups :: captures

fun regex_exec_from :: "bool \<Rightarrow> regex \<Rightarrow> string \<Rightarrow> string \<Rightarrow> match_result option" where
  "regex_exec_from ci r pre s =
     (case rmatch ci r (s, []) of
        st # _ \<Rightarrow> Some \<lparr> before = rev pre,
                        matched = take (length s - length (fst st)) s,
                        after = fst st,
                        groups = snd st \<rparr>
      | [] \<Rightarrow> (case s of [] \<Rightarrow> None | c # cs \<Rightarrow> regex_exec_from ci r (c # pre) cs))"

declare regex_exec_from.simps [simp del]

definition regex_exec :: "bool \<Rightarrow> regex \<Rightarrow> string \<Rightarrow> match_result option" where
  "regex_exec ci r s = regex_exec_from ci r [] s"

definition regex_test :: "bool \<Rightarrow> regex \<Rightarrow> string \<Rightarrow> bool" where
  "regex_test ci r s = (regex_exec ci r s \<noteq> None)"

definition group :: "match_result \<Rightarrow> nat \<Rightarrow> string" where
  "group m n = (case map_of (groups m) n of Some g \<Rightarrow> g | None \<Rightarrow> [])"

text \<open>
  \<^verbatim>\<open>s.replace(re, repl)\<close> with the flag \<^verbatim>\<open>g\<close> and a replacement without \<^verbatim>\<open>$\<close>:
  every match, left to right, is replaced; after an empty match the scan moves on by one
  character.
\<close>

function replace_all :: "bool \<Rightarrow> regex \<Rightarrow> string \<Rightarrow> string \<Rightarrow> string" where
  "replace_all ci r repl s =
     (case rmatch ci r (s, []) of
        [] \<Rightarrow> (case s of [] \<Rightarrow> [] | c # cs \<Rightarrow> c # replace_all ci r repl cs)
      | st # _ \<Rightarrow>
          if length (fst st) < length s then repl @ replace_all ci r repl (fst st)
          else repl @ (case s of [] \<Rightarrow> [] | c # cs \<Rightarrow> c # replace_all ci r repl cs))"
  by pat_completeness auto
termination
  by (relation "measure (\<lambda>(ci, r, repl, s). length s)") auto

declare replace_all.simps [simp del]

section \<open>Helpers (utils/helpers.js)\<close>

text \<open>
  \<^verbatim>\<open>generateBranchName(teamName, leaderName)\<close>:
  \<^verbatim>\<open>sanitize = (str) => str.trim().toUpperCase().replace(/[^A-Z0-9\s]/g, "").replace(/\s+/g, "_")\<close>,
  result \<^verbatim>\<open>`${sanitize(teamName)}_${sanitize(leaderName)}_AI_Fix`\<close>.
\<close>

definition re_not_alnum_space :: regex where
  "re_not_alnum_space = Atom (NoneOf [Range CHR ''A'' CHR ''Z'', Range CHR ''0'' CHR ''9'', Space])"

definition re_spaces :: regex where
  "re_spaces = Plus (Atom Space)"

definition sanitize :: "string \<Rightarrow> string" where
  "sanitize str =
     replace_all False re_spaces ''_''
       (replace_all False re_not_alnum_space '''' (toUpperCase (trim str)))"

definition generateBranchName :: "string \<Rightarrow> string \<Rightarrow> string" where
  "generateBranchName teamName leaderName =
     sanitize teamName @ ''_'' @ sanitize leaderName @ ''_AI_Fix''"

text \<open>
  \<^verbatim>\<open>parseRepoUrl(url)\<close>: \<^verbatim>\<open>url.match(/github\.com\/([^/]+)\/([^/.]+)/)\<close>; without a match
  it throws \<^verbatim>\<open>Invalid GitHub repo URL\<close> (\<open>Inl\<close>), else it returns owner and repo.
\<close>

definition re_repo_url :: regex where
  "re_repo_url =
     seqs [Str ''github.com/'',
           Group 1 (Plus (Atom (NoneOf [Lit CHR ''/'']))),
           Str ''/'',
           Group 2 (Plus (Atom (NoneOf [Lit CHR ''/'', Lit CHR ''.''])))]"

definition parseRepoUrl :: "string \<Rightarrow> string + (string \<times> string)" where
  "parseRepoUrl url =
     (case regex_exec False re_repo_url url of
        None \<Rightarrow> Inl (''Invalid GitHub repo URL: '' @ url)
      | Some m \<Rightarrow> Inr (group m 1, group m 2))"

section \<open>Error classifier (utils/classifier.js)\<close>

datatype bug_type =
  SYNTAX | LINTING | LOGIC | TYPE_ERROR | IMPORT | INDENTATION | RUNTIME | UNKNOWN

text \<open>The value of each member of \<^verbatim>\<open>BUG_TYPES\<close>, as it appears in a template string.\<close>

fun bug_type_name :: "bug_type \<Rightarrow> string" where
  "bug_type_name SYNTAX = ''SYNTAX''"
| "bug_type_name LINTING = ''LINTING''"
| "bug_type_name LOGIC = ''LOGIC''"
| "bug_type_name TYPE_ERROR = ''TYPE_ERROR''"
| "bug_type_name IMPORT = ''IMPORT''"
| "bug_type_name INDENTATION = ''INDENTATION''"
| "bug_type_name RUNTIME = ''RUNTIME''"
| "bug_type_name UNKNOWN = ''UNKNOWN''"

text \<open>\<^verbatim>\<open>PATTERNS\<close>, in declaration order; every expression carries the flag \<^verbatim>\<open>i\<close>.\<close>

definition PATTERNS :: "(regex \<times> bug_type) list" where
  "PATTERNS =
    [(alts [Str ''SyntaxError'', Str ''unexpected token'', Str ''invalid syntax'',
            Str ''EOL while scanning''], SYNTAX),
     (alts [Str ''IndentationError'', Str ''unexpected indent'',
            Str ''expected an indented block''], INDENTATION),
     (alts [Str ''TypeError'', seqs [Str ''type'', Star (Atom Dot), Str ''mismatch''],
            Str ''cannot read propert''], TYPE_ERROR),
     (alts [Str ''ImportError'', Str ''ModuleNotFoundError'', Str ''Cannot find module'',
            Str ''no module named''], IMPORT),
     (alts [Str ''AssertionError'',
            seqs [Str ''Expected'', Star (Atom Dot), Str ''to '',
                  Group 1 (alts [Str ''equal'', Str ''be'', Str ''match''])],
            Str ''assert''], LOGIC),
     (alts [Str ''eslint'', Str ''lint'', Str ''prettier'',
            seqs [Str ''warning'', Star (Atom Dot), Str ''rule'']], LINTING),
     (alts [Str ''ReferenceError'', Str ''NameError'', Str ''is not defined''], RUNTIME)]"

text \<open>\<^verbatim>\<open>classifyError\<close>: the type of the first pattern that matches, else \<open>UNKNOWN\<close>.\<close>

fun classify_with :: "(regex \<times> bug_type) list \<Rightarrow> string \<Rightarrow> bug_type" where
  "classify_with [] errorLine = UNKNOWN"
| "classify_with ((re, ty) # ps) errorLine =
     (if regex_test True re errorLine then ty else classify_with ps errorLine)"

definition classifyError :: "string \<Rightarrow> bug_type" where
  "classifyError errorLine = classify_with PATTERNS errorLine"

text \<open>
  \<^verbatim>\<open>extractLocation\<close> tries three expressions in order:
  \<^verbatim>\<open>/File "([^"]+)", line (\d+)/\<close>,
  \<^verbatim>\<open>/(?:at .+\()?([^\s(]+):(\d+):\d+\)?/\<close> and
  \<^verbatim>\<open>/([^\s:]+\.\w+):(\d+)/\<close>. The line is \<^verbatim>\<open>parseInt(match[2], 10)\<close>.
\<close>

definition re_python_location :: regex where
  "re_python_location =
     seqs [Str (''File '' @ [CHR 0x22]), Group 1 (Plus (Atom (NoneOf [Lit (CHR 0x22)]))),
           Str (CHR 0x22 # '', line ''), Group 2 (Plus (Atom Digit))]"

definition re_js_location :: regex where
  "re_js_location =
     seqs [Opt (seqs [Str ''at '', Plus (Atom Dot), Str ''('']),
           Group 1 (Plus (Atom (NoneOf [Space, Lit CHR ''('']))),
           Str '':'', Group 2 (Plus (Atom Digit)),
           Str '':'', Plus (Atom Digit), Opt (Str '')'')]"

definition re_generic_location :: regex where
  "re_generic_location =
     seqs [Group 1 (seqs [Plus (Atom (NoneOf [Space, Lit CHR '':''])), Str ''.'',
                          Plus (Atom WordChar)]),
           Str '':'', Group 2 (Plus (Atom Digit))]"

definition location_of :: "match_result \<Rightarrow> string option \<times> js_number option" where
  "location_of m = (Some (group m 1), Some (parseInt10 (group m 2)))"

definition extractLocation :: "string \<Rightarrow> string option \<times> js_number option" where
  "extractLocation errorLine =
     (case regex_exec False re_python_location errorLine of
        Some m \<Rightarrow> location_of m
      | None \<Rightarrow>
     (case regex_exec False re_js_location errorLine of
        Some m \<Rightarrow> location_of m
      | None \<Rightarrow>
     (case regex_exec False re_generic_location errorLine of
        Some m \<Rightarrow> location_of m
      | None \<Rightarrow> (None, None))))"

text \<open>
  The records. A parsed error is \<^verbatim>\<open>{ bugType, file, lineNumber, rawMessage }\<close>; a fix
  proposal and an applied fix (below) share \<open>file\<close>, \<open>lineNumber\<close> and \<open>bugType\<close>.
  \<open>None\<close> is \<^verbatim>\<open>null\<close> or an absent field.
\<close>

record located =
  "file" :: "string option"
  lineNumber :: "js_number option"
  bugType :: bug_type

record error_record = located +
  rawMessage :: string

text \<open>The key \<^verbatim>\<open>`${file}:${lineNum}:${bugType}`\<close> of the set \<^verbatim>\<open>seen\<close>.\<close>

definition dedup_key :: "string option \<Rightarrow> js_number option \<Rightarrow> bug_type \<Rightarrow> string" where
  "dedup_key f n ty =
     (case f of None \<Rightarrow> ''null'' | Some p \<Rightarrow> p) @ '':'' @
     (case n of None \<Rightarrow> ''null'' | Some k \<Rightarrow> show_number k) @ '':'' @ bug_type_name ty"

text \<open>The loop of \<^verbatim>\<open>parseErrorLog\<close> over the lines, with the set \<^verbatim>\<open>seen\<close>.\<close>

fun parse_lines :: "string list \<Rightarrow> string list \<Rightarrow> error_record list" where
  "parse_lines seen [] = []"
| "parse_lines seen (line # rest) =
     (let ty = classifyError line in
      if ty = UNKNOWN \<and> \<not> includes_str line ''Error'' \<and> \<not> includes_str line ''FAIL''
      then parse_lines seen rest
      else
        (let (f, lineNum) = extractLocation line;
             key = dedup_key f lineNum ty
         in if key \<in> set seen then parse_lines seen rest
            else \<lparr> file = f, lineNumber = lineNum, bugType = ty, rawMessage = trim line \<rparr>
                 # parse_lines (key # seen) rest))"

definition parseErrorLog :: "string \<Rightarrow> error_record list" where
  "parseErrorLog rawLog =
     parse_lines [] (filter (\<lambda>l. trim l \<noteq> []) (split_on (CHR 0x0A) rawLog))"

section \<open>Fixer agent (agents/fixer.js)\<close>

text \<open>
  A fix proposal as the prompt asks for it:
  \<^verbatim>\<open>{ file, lineNumber, bugType, description, originalCode, fixedCode, commitMessage }\<close>.
  A text field that is absent is the empty string (both are falsy in the source);
  \<open>lineNumber\<close> is a number with an integral value, \<^verbatim>\<open>Infinity\<close>, or absent. An applied
  fix is \<^verbatim>\<open>{ ...fix, status, reason }\<close>.
\<close>

record fix_proposal = located +
  description :: string
  originalCode :: string
  fixedCode :: string
  commitMessage :: string

datatype fix_status = Fixed | Failed | Skipped

record applied_fix = fix_proposal +
  status :: fix_status
  reason :: "string option"

subsection \<open>The language model, with retry and model fallback\<close>

text \<open>
  One call \<^verbatim>\<open>llm.invoke(messages)\<close> either answers with a text or throws an error with
  a message. The calls of one \<^verbatim>\<open>_invokeWithFallback\<close> are given by a function of the
  position of the model in \<^verbatim>\<open>FALLBACK_MODELS\<close> (three entries) and the attempt.
\<close>

datatype llm_outcome = Responds string | Rejects string

definition is429 :: "string \<Rightarrow> bool" where
  "is429 msg = (includes_str msg ''429'' \<or> includes_str msg ''quota''
                \<or> includes_str msg ''Too Many Requests'')"

datatype attempt_flow = Response string | NextModel | Thrown string

text \<open>\<^verbatim>\<open>for (let attempt = 1; attempt <= 3; attempt++)\<close> over the attempts left.\<close>

fun attempts_loop :: "(nat \<Rightarrow> llm_outcome) \<Rightarrow> nat list \<Rightarrow> attempt_flow" where
  "attempts_loop invoke [] = NextModel"
| "attempts_loop invoke (attempt # rest) =
     (case invoke attempt of
        Responds r \<Rightarrow> Response r
      | Rejects msg \<Rightarrow>
          if is429 msg \<and> attempt < 3 then attempts_loop invoke rest
          else if is429 msg then NextModel
          else Thrown msg)"

fun models_loop :: "(nat \<Rightarrow> nat \<Rightarrow> llm_outcome) \<Rightarrow> nat list \<Rightarrow> string + string" where
  "models_loop llm [] = Inl ''All Gemini models exhausted''"
| "models_loop llm (model # rest) =
     (case attempts_loop (llm model) [1, 2, 3] of
        Response r \<Rightarrow> Inr r
      | NextModel \<Rightarrow> models_loop llm rest
      | Thrown msg \<Rightarrow> Inl msg)"

definition invokeWithFallback :: "(nat \<Rightarrow> nat \<Rightarrow> llm_outcome) \<Rightarrow> string + string" where
  "invokeWithFallback llm = models_loop llm [0, 1, 2]"

subsection \<open>The working tree\<close>

text \<open>
  The files under \<^verbatim>\<open>repoDir\<close>, by the path the fix names. \<^verbatim>\<open>fs.pathExists\<close> holds
  for a file and for a directory; \<^verbatim>\<open>fs.readFile\<close> of a directory throws.
\<close>

datatype node = File string | Dir

type_synonym tree = "string \<rightharpoonup> node"

definition EISDIR :: string where
  "EISDIR = ''EISDIR: illegal operation on a directory, read''"

subsection \<open>generateFixes\<close>

definition context_read_throws :: "tree \<Rightarrow> error_record \<Rightarrow> bool" where
  "context_read_throws t e =
     (case file e of
        None \<Rightarrow> False
      | Some f \<Rightarrow> f \<noteq> [] \<and> t f = Some Dir)"

text \<open>\<^verbatim>\<open>content.match(/\[[\s\S]*\]/)\<close>\<close>

definition re_json_array :: regex where
  "re_json_array = seqs [Str ''['', Star (Atom AnyChar), Str '']'']"

text \<open>The fallback of the \<^verbatim>\<open>catch\<close> block: one proposal per parsed error.\<close>

definition placeholder :: "error_record \<Rightarrow> fix_proposal" where
  "placeholder e =
     \<lparr> file = file e, lineNumber = lineNumber e, bugType = bugType e,
       description = rawMessage e,
       originalCode = '''',
       fixedCode = '''',
       commitMessage =
         ''[AI-AGENT] Fix '' @ bug_type_name (bugType e) @ '' error in '' @
         (case file e of None \<Rightarrow> ''unknown'' | Some f \<Rightarrow> if f = [] then ''unknown'' else f) @
         '' line '' @
         (case lineNumber e of
            None \<Rightarrow> ''?''
          | Some n \<Rightarrow> if n = Finite 0 then ''?'' else show_number n) \<rparr>"

text \<open>
  \<open>generateFixes llm json_parse t errorOutput\<close>. \<open>json_parse\<close> is \<^verbatim>\<open>JSON.parse\<close> on the
  matched text, \<open>None\<close> when it throws. Reading the source context is outside the
  \<^verbatim>\<open>try\<close> block: if it throws, \<^verbatim>\<open>generateFixes\<close> throws (\<open>Inl\<close>).
\<close>

definition generateFixes ::
  "(nat \<Rightarrow> nat \<Rightarrow> llm_outcome) \<Rightarrow> (string \<Rightarrow> fix_proposal list option) \<Rightarrow> tree \<Rightarrow> string
   \<Rightarrow> string + fix_proposal list" where
  "generateFixes llm json_parse t errorOutput =
     (let parsedErrors = parseErrorLog errorOutput in
      if list_ex (context_read_throws t) parsedErrors then Inl EISDIR
      else
        Inr (case invokeWithFallback llm of
               Inl msg \<Rightarrow> map placeholder parsedErrors
             | Inr content \<Rightarrow>
                 (case regex_exec False re_json_array (trim content) of
                    None \<Rightarrow> []
                  | Some jsonMatch \<Rightarrow>
                      (case json_parse (matched jsonMatch) of
                         None \<Rightarrow> map placeholder parsedErrors
                       | Some fixes \<Rightarrow> fixes))))"

text \<open>
  The two degraded outcomes of the language model inside \<^verbatim>\<open>generateFixes\<close>.
  \<open>catch_runs\<close>: the \<^verbatim>\<open>catch\<close> block runs, because \<^verbatim>\<open>_invokeWithFallback\<close> throws (every
  model exhausted, or an error that is not a rate limit) or because \<^verbatim>\<open>JSON.parse\<close>
  throws on the matched text. \<open>no_json_array\<close>: the model answers and the answer
  contains no match of \<^verbatim>\<open>/\[[\s\S]*\]/\<close>.
\<close>

definition catch_runs ::
  "(nat \<Rightarrow> nat \<Rightarrow> llm_outcome) \<Rightarrow> (string \<Rightarrow> fix_proposal list option) \<Rightarrow> bool" where
  "catch_runs llm json_parse =
     (case invokeWithFallback llm of
        Inl msg \<Rightarrow> True
      | Inr content \<Rightarrow>
          (case regex_exec False re_json_array (trim content) of
             None \<Rightarrow> False
           | Some jsonMatch \<Rightarrow> json_parse (matched jsonMatch) = None))"

definition no_json_array :: "(nat \<Rightarrow> nat \<Rightarrow> llm_outcome) \<Rightarrow> bool" where
  "no_json_array llm =
     (case invokeWithFallback llm of
        Inl msg \<Rightarrow> False
      | Inr content \<Rightarrow> regex_exec False re_json_array (trim content) = None)"

text \<open>
  The strings in which \<^verbatim>\<open>/\[[\s\S]*\]/\<close> has a match, said without the expression:
  an opening bracket with a closing bracket somewhere after it.
\<close>

definition has_bracket_pair :: "string \<Rightarrow> bool" where
  "has_bracket_pair s = (\<exists>a b c. s = a @ ''['' @ b @ '']'' @ c)"

subsection \<open>applyFixes\<close>

definition mark :: "fix_proposal \<Rightarrow> fix_status \<Rightarrow> string option \<Rightarrow> applied_fix" where
  "mark f st why =
     \<lparr> file = file f, lineNumber = lineNumber f, bugType = bugType f,
       description = description f, originalCode = originalCode f,
       fixedCode = fixedCode f, commitMessage = commitMessage f,
       status = st, reason = why \<rparr>"

text \<open>
  \<^verbatim>\<open>lines[i] = v\<close> on a JavaScript array: an index inside the array replaces the
  element, an index past the end extends the array (the holes join as empty strings),
  and a negative index sets a property and changes no element.
\<close>

definition assign_index :: "string list \<Rightarrow> int \<Rightarrow> string \<Rightarrow> string list" where
  "assign_index lines i v =
     (if i < 0 then lines
      else if nat i < length lines then lines[nat i := v]
      else lines @ replicate (nat i - length lines) [] @ [v])"

text \<open>
  \<open>applyFix\<close> is the body of the loop of \<^verbatim>\<open>applyFixes\<close> for one proposal. The test
  \<^verbatim>\<open>fix.lineNumber && fix.lineNumber <= lines.length\<close> fails for an absent line, for
  \<open>0\<close> and for \<^verbatim>\<open>Infinity\<close>.
\<close>

definition falsy_text :: "string option \<Rightarrow> bool" where
  "falsy_text v = (case v of None \<Rightarrow> True | Some s \<Rightarrow> s = [])"

definition applyFix :: "fix_proposal \<Rightarrow> tree \<Rightarrow> applied_fix \<times> tree" where
  "applyFix f t =
     (if falsy_text (file f) \<or> originalCode f = [] \<or> fixedCode f = []
      then (mark f Skipped None, t)
      else
        (let filePath = the (file f) in
         case t filePath of
           None \<Rightarrow> (mark f Failed (Some ''File not found''), t)
         | Some Dir \<Rightarrow> (mark f Failed (Some EISDIR), t)
         | Some (File content) \<Rightarrow>
             if \<not> includes_str content (originalCode f) then
               (let lines = split_on (CHR 0x0A) content in
                case lineNumber f of
                  None \<Rightarrow> (mark f Failed (Some ''Original code not found''), t)
                | Some Infinity \<Rightarrow> (mark f Failed (Some ''Original code not found''), t)
                | Some (Finite n) \<Rightarrow>
                    if n \<noteq> 0 \<and> n \<le> int (length lines) then
                      (mark f Fixed None,
                       t(filePath \<mapsto>
                           File (join_with [CHR 0x0A] (assign_index lines (n - 1) (fixedCode f)))))
                    else (mark f Failed (Some ''Original code not found''), t))
             else
               (mark f Fixed None,
                t(filePath \<mapsto> File (replace_str content (originalCode f) (fixedCode f))))))"

fun applyFixes :: "fix_proposal list \<Rightarrow> tree \<Rightarrow> applied_fix list \<times> tree" where
  "applyFixes [] t = ([], t)"
| "applyFixes (f # fs) t =
     (let (r, t') = applyFix f t;
          (rs, t'') = applyFixes fs t'
      in (r # rs, t''))"

section \<open>Sandbox executor (utils/docker.js)\<close>

record exec_result =
  exitCode :: int
  stdout :: string
  stderr :: string

definition MAX_OUTPUT :: nat where
  "MAX_OUTPUT = 50000"

definition TIMEOUT_MARKER :: string where
  "TIMEOUT_MARKER = ''TIMEOUT: Command execution exceeded time limit''"

subsection \<open>Container mode\<close>

text \<open>
  What the Docker daemon does during one \<^verbatim>\<open>_runInDockerContainer\<close>: whether the image
  is there or can be pulled, whether \<^verbatim>\<open>createContainer\<close> throws, and how the
  container run ends. \<open>TimesOut\<close> is the case where the timer of
  \<^verbatim>\<open>Promise.race([waitPromise, timeoutPromise])\<close> fires first, so that \<^verbatim>\<open>timedOut\<close>
  is set; \<open>Exits\<close> carries \<^verbatim>\<open>result.StatusCode\<close> and the two collected streams.
\<close>

datatype image_state = ImageLocal | PullSucceeds | PullFails string

datatype container_run =
    AttachFails string
  | StartFails string
  | WaitFails string
  | Exits int string string
  | TimesOut

record docker_daemon =
  image_state :: image_state
  create_error :: "string option"
  container :: container_run

text \<open>\<^verbatim>\<open>if (s.length > MAX_OUTPUT) s = s.slice(-MAX_OUTPUT)\<close>\<close>

definition truncate_output :: "string \<Rightarrow> string" where
  "truncate_output s = (if length s > MAX_OUTPUT then slice_last MAX_OUTPUT s else s)"

text \<open>
  The body of the \<^verbatim>\<open>try\<close> block, as the final values of
  \<^verbatim>\<open>exitCode\<close>, \<^verbatim>\<open>stdout\<close>, \<^verbatim>\<open>stderr\<close> (initially \<open>1\<close>, empty, empty).
\<close>

fun container_result :: "container_run \<Rightarrow> int \<times> string \<times> string" where
  "container_result (AttachFails msg) = (1, '''', msg)"
| "container_result (StartFails msg) = (1, '''', msg)"
| "container_result (WaitFails msg) = (1, '''', msg)"
| "container_result TimesOut = (124, '''', TIMEOUT_MARKER)"
| "container_result (Exits statusCode out err) = (statusCode, out, err)"

definition runInDockerContainer :: "docker_daemon \<Rightarrow> string + exec_result" where
  "runInDockerContainer d =
     (case image_state d of
        PullFails msg \<Rightarrow> Inl msg
      | _ \<Rightarrow>
        (case create_error d of
           Some msg \<Rightarrow> Inl msg
         | None \<Rightarrow>
             (let (code, out, err) = container_result (container d)
              in Inr \<lparr> exitCode = code,
                       stdout = truncate_output out,
                       stderr = truncate_output err \<rparr>)))"

subsection \<open>Native fallback\<close>

text \<open>
  \<^verbatim>\<open>_runNative\<close> passes the timeout to \<^verbatim>\<open>child_process.exec\<close> and computes its result
  in the callback \<^verbatim>\<open>(error, stdout, stderr)\<close>:
  \<^verbatim>\<open>exitCode = error ? (error.code || 1) : 0\<close>. The error of a failed command has the
  fields \<open>code\<close> (the exit status, \<open>None\<close> for \<^verbatim>\<open>null\<close>), \<open>killed\<close> and \<open>signal\<close>.
\<close>

record exec_error =
  code :: "int option"
  killed :: bool
  signal :: "string option"

record exec_callback =
  error :: "exec_error option"
  cb_stdout :: string
  cb_stderr :: string

definition runNative :: "exec_callback \<Rightarrow> exec_result" where
  "runNative cb =
     \<lparr> exitCode =
         (case error cb of
            None \<Rightarrow> 0
          | Some e \<Rightarrow> (case code e of None \<Rightarrow> 1 | Some c \<Rightarrow> if c = 0 then 1 else c)),
       stdout = slice_last MAX_OUTPUT (cb_stdout cb),
       stderr = slice_last MAX_OUTPUT (cb_stderr cb) \<rparr>"

text \<open>
  Node's \<^verbatim>\<open>exec\<close> with the option \<^verbatim>\<open>timeout\<close>: when the time is up it sends the kill
  signal (\<^verbatim>\<open>SIGTERM\<close>) to the child and calls back with an error whose \<open>killed\<close> is
  true, whose \<open>signal\<close> is \<^verbatim>\<open>SIGTERM\<close> and whose \<open>code\<close> is \<^verbatim>\<open>null\<close>, together with
  the output collected until then.
\<close>

definition exec_timed_out :: "string \<Rightarrow> string \<Rightarrow> exec_callback" where
  "exec_timed_out out err =
     \<lparr> error = Some \<lparr> code = None, killed = True, signal = Some ''SIGTERM'' \<rparr>,
       cb_stdout = out, cb_stderr = err \<rparr>"

subsection \<open>runInDocker\<close>

text \<open>The cached flag \<^verbatim>\<open>_dockerAvailable\<close> selects the mode.\<close>

datatype sandbox = Container docker_daemon | Native exec_callback

fun runInDocker :: "sandbox \<Rightarrow> string + exec_result" where
  "runInDocker (Container d) = runInDockerContainer d"
| "runInDocker (Native cb) = Inr (runNative cb)"

section \<open>Analyzer agent (agents/analyzer.js)\<close>

text \<open>
  \<^verbatim>\<open>runTests\<close>: \<^verbatim>\<open>passed = exitCode === 0\<close>,
  \<^verbatim>\<open>output = `${stdout}\n${stderr}`.trim()\<close>; an error of \<^verbatim>\<open>runInDocker\<close> propagates.
\<close>

record test_result =
  passed :: bool
  "output" :: string

definition runTests :: "sandbox \<Rightarrow> string + test_result" where
  "runTests sb =
     (case runInDocker sb of
        Inl msg \<Rightarrow> Inl msg
      | Inr r \<Rightarrow> Inr \<lparr> passed = (exitCode r = 0),
                        output = trim (stdout r @ [CHR 0x0A] @ stderr r) \<rparr>)"

section \<open>Scoring (utils/scoring.js)\<close>

text \<open>
  \<^verbatim>\<open>computeScore({ totalTime, commitCount, fixCount, iterationCount })\<close> builds the
  object \<^verbatim>\<open>breakdown\<close> field by field. The counts are integers (a time difference
  in milliseconds, list lengths, a sum of commit counts), modelled as \<open>int\<close>.
  The two penalty fields are stored negated:
  \<^verbatim>\<open>breakdown.commitPenalty = -commitPenalty\<close>,
  \<^verbatim>\<open>breakdown.iterationPenalty = -iterPenalty\<close>.
\<close>

record score_breakdown =
  base :: int
  speedBonus :: int
  fixBonus :: int
  commitPenalty :: int
  iterationPenalty :: int
  total :: int

definition computeScore :: "int \<Rightarrow> int \<Rightarrow> int \<Rightarrow> int \<Rightarrow> score_breakdown" where
  "computeScore totalTime commitCount fixCount iterationCount =
     (let base0 = 100;
          speedBonus0 = (if totalTime < 300000 then 10 else 0);
          fixBonus0 = min fixCount 20 * 2;
          commitPenalty0 = (if commitCount > 20 then (commitCount - 20) * 2 else 0);
          iterPenalty0 = (if iterationCount > 3 then (iterationCount - 3) * 5 else 0);
          total0 = base0 + speedBonus0 + fixBonus0 - commitPenalty0 - iterPenalty0
      in \<lparr> base = base0,
           speedBonus = speedBonus0,
           fixBonus = fixBonus0,
           commitPenalty = - commitPenalty0,
           iterationPenalty = - iterPenalty0,
           total = max total0 0 \<rparr>)"

section \<open>Orchestrator (agents/orchestrator.js)\<close>

text \<open>The status strings of the timeline and of \<^verbatim>\<open>finalStatus\<close>.\<close>

datatype run_status = PASSED | FAILED | NO_FIXES | APPLY_FAILED | CI_PASSED | ERROR

text \<open>
  Everything outside the process that one run meets. Functions of a natural number
  are indexed by the iteration (\<open>0\<close> is the initial analysis).
  \<^item> \<open>clone_shallow_ok\<close>, \<open>clone_full_ok\<close>: whether the shallow clone, and the full
    clone tried after it, succeed; \<open>repo_tree\<close>: the files of the clone.
  \<^item> \<open>sandbox_at\<close>: the sandbox during the test run of that iteration.
  \<^item> \<open>llm_at\<close>, \<open>json_parse\<close>: the language model's answers and \<^verbatim>\<open>JSON.parse\<close>.
  \<^item> \<open>commit_at\<close>: \<^verbatim>\<open>commitAndPush\<close>, the number of commits or the error thrown.
  \<^item> \<open>ci_at\<close>: \<^verbatim>\<open>monitorCI\<close>, \<^verbatim>\<open>ciResult.passed\<close> or the error thrown.
  \<^item> \<open>save_ok\<close>, \<open>remove_ok\<close>: whether \<^verbatim>\<open>saveResults\<close> and \<^verbatim>\<open>fs.remove\<close> succeed.
  \<^item> \<open>elapsed_ms\<close>: \<^verbatim>\<open>Date.now() - this.startTime\<close> when the results are built.
\<close>

record world =
  clone_shallow_ok :: bool
  clone_full_ok :: bool
  repo_tree :: tree
  sandbox_at :: "nat \<Rightarrow> sandbox"
  llm_at :: "nat \<Rightarrow> nat \<Rightarrow> nat \<Rightarrow> llm_outcome"
  json_parse :: "string \<Rightarrow> fix_proposal list option"
  commit_at :: "nat \<Rightarrow> string + nat"
  ci_at :: "nat \<Rightarrow> string + bool"
  save_ok :: bool
  remove_ok :: bool
  elapsed_ms :: int

text \<open>
  The fields of the Orchestrator (\<open>timeline\<close>, \<open>allFixes\<close>, \<open>totalCommits\<close>,
  \<open>totalFailures\<close>), the local variables of \<^verbatim>\<open>run\<close> (\<open>repoDir\<close>, \<open>finalStatus\<close>,
  \<open>iteration\<close>, \<open>currentOutput\<close>) and the part of the file system the run touches:
  whether \<^verbatim>\<open>tmp/{runId}\<close> exists (\<open>tmp_exists\<close>) and the working tree in it.
  \<open>events\<close> are the events the Orchestrator itself broadcasts. \<open>bodiesRun\<close> is not
  in the source: it counts how often the body of the fix loop was entered.
  A timeline entry is the pair of \<open>iteration\<close> and \<open>status\<close> (the timestamp is left out).
\<close>

record orch =
  timeline :: "(nat \<times> run_status) list"
  allFixes :: "applied_fix list"
  totalCommits :: nat
  totalFailures :: nat
  repoDir :: "string option"
  finalStatus :: run_status
  iteration :: nat
  currentOutput :: string
  tmp_exists :: bool
  work_tree :: tree
  events :: "string list"
  bodiesRun :: nat

definition tmpDir :: string where
  "tmpDir = ''tmp/runId''"

definition initial :: orch where
  "initial =
     \<lparr> timeline = [], allFixes = [], totalCommits = 0, totalFailures = 0,
       repoDir = None, finalStatus = FAILED, iteration = 0, currentOutput = [],
       tmp_exists = False, work_tree = Map.empty, events = [], bodiesRun = 0 \<rparr>"

definition addTimeline :: "nat \<Rightarrow> run_status \<Rightarrow> orch \<Rightarrow> orch" where
  "addTimeline i st s = s\<lparr>timeline := timeline s @ [(i, st)]\<rparr>"

definition broadcast :: "string \<Rightarrow> orch \<Rightarrow> orch" where
  "broadcast ev s = s\<lparr>events := events s @ [ev]\<rparr>"

subsection \<open>The initial analysis\<close>

text \<open>
  \<^verbatim>\<open>cloneRepo\<close>: \<^verbatim>\<open>fs.ensureDir(tmpDir)\<close> first, then the shallow clone; if it throws,
  \<^verbatim>\<open>fs.emptyDir(tmpDir)\<close> and the full clone, whose error propagates. The result is the
  error thrown (\<open>Inl\<close>) or the directory, with the state reached in either case.
\<close>

definition cloneRepo :: "world \<Rightarrow> orch \<Rightarrow> (string + string) \<times> orch" where
  "cloneRepo w s =
     (let s1 = s\<lparr>tmp_exists := True\<rparr> in
      if clone_shallow_ok w then (Inr tmpDir, s1\<lparr>work_tree := repo_tree w\<rparr>)
      else
        (let s2 = s1\<lparr>work_tree := Map.empty\<rparr> in
         if clone_full_ok w then (Inr tmpDir, s2\<lparr>work_tree := repo_tree w\<rparr>)
         else (Inl ''git clone failed'', s2)))"

text \<open>
  \<^verbatim>\<open>analyze\<close>: clone, detect, discover, run the tests. Detection and discovery only
  read the tree and choose the runtime; the test run is the sandbox of iteration \<open>0\<close>.
\<close>

definition analyze :: "world \<Rightarrow> orch \<Rightarrow> (string + (string \<times> test_result)) \<times> orch" where
  "analyze w s =
     (case cloneRepo w s of
        (Inl msg, s1) \<Rightarrow> (Inl msg, s1)
      | (Inr dir, s1) \<Rightarrow>
          (case runTests (sandbox_at w 0) of
             Inl msg \<Rightarrow> (Inl msg, s1)
           | Inr testResult \<Rightarrow> (Inr (dir, testResult), s1)))"

subsection \<open>The fix loop\<close>

datatype flow = Continue | Break | Throw string

definition count_fixed :: "applied_fix list \<Rightarrow> nat" where
  "count_fixed fs = length (filter (\<lambda>f. status f = Fixed) fs)"

text \<open>
  The body of \<^verbatim>\<open>for (iteration = 1; iteration <= RETRY_LIMIT; iteration++)\<close>, for the
  value of \<open>iteration\<close> in the state. The CI monitor runs inside its own \<^verbatim>\<open>try\<close>: an
  error there is logged and the loop goes on.
\<close>

definition iteration_body :: "world \<Rightarrow> orch \<Rightarrow> flow \<times> orch" where
  "iteration_body w s0 =
     (let i = iteration s0;
          s = broadcast ''iteration_start'' (s0\<lparr>bodiesRun := bodiesRun s0 + 1\<rparr>) in
      case generateFixes (llm_at w i) (json_parse w) (work_tree s) (currentOutput s) of
        Inl msg \<Rightarrow> (Throw msg, s)
      | Inr fixes \<Rightarrow>
          if length fixes = 0 then (Break, addTimeline i NO_FIXES s)
          else
            (let (appliedFixes, t') = applyFixes fixes (work_tree s);
                 s1 = s\<lparr>work_tree := t', allFixes := allFixes s @ appliedFixes\<rparr>
             in if count_fixed appliedFixes = 0 then (Break, addTimeline i APPLY_FAILED s1)
                else
                  (case commit_at w i of
                     Inl msg \<Rightarrow> (Throw msg, s1)
                   | Inr commits \<Rightarrow>
                       (let s2 = s1\<lparr>totalCommits := totalCommits s1 + commits\<rparr> in
                        case runTests (sandbox_at w i) of
                          Inl msg \<Rightarrow> (Throw msg, s2)
                        | Inr retestResult \<Rightarrow>
                            if passed retestResult
                            then (Break, (addTimeline i PASSED s2)\<lparr>finalStatus := PASSED\<rparr>)
                            else
                              (let s3 = addTimeline i FAILED
                                          (s2\<lparr>totalFailures := totalFailures s2 + 1,
                                              currentOutput := output retestResult\<rparr>)
                               in case ci_at w i of
                                    Inr True \<Rightarrow>
                                      (Break, addTimeline i CI_PASSED (s3\<lparr>finalStatus := PASSED\<rparr>))
                                  | Inr False \<Rightarrow> (Continue, s3)
                                  | Inl msg \<Rightarrow> (Continue, s3))))))"

text \<open>
  The loop. \<open>RETRY_LIMIT\<close> is \<^verbatim>\<open>parseInt(process.env.RETRY_LIMIT || "5", 10)\<close>, an
  integer given by the environment. The result says whether an error left the loop.
\<close>

function fixLoop :: "world \<Rightarrow> int \<Rightarrow> nat \<Rightarrow> orch \<Rightarrow> string option \<times> orch" where
  "fixLoop w RETRY_LIMIT i s =
     (if int i \<le> RETRY_LIMIT then
        (case iteration_body w (s\<lparr>iteration := i\<rparr>) of
           (Continue, s') \<Rightarrow> fixLoop w RETRY_LIMIT (Suc i) s'
         | (Break, s') \<Rightarrow> (None, s')
         | (Throw msg, s') \<Rightarrow> (Some msg, s'))
      else (None, s\<lparr>iteration := i\<rparr>))"
  by pat_completeness auto
termination
  by (relation "measure (\<lambda>(w, RETRY_LIMIT, i, s). nat (RETRY_LIMIT + 1 - int i))") auto

declare fixLoop.simps [simp del]

subsection \<open>run\<close>

text \<open>The \<^verbatim>\<open>try\<close> block of \<^verbatim>\<open>run\<close>: \<open>Some msg\<close> is the error caught by its \<^verbatim>\<open>catch\<close>.\<close>

definition run_try :: "world \<Rightarrow> int \<Rightarrow> orch \<Rightarrow> string option \<times> orch" where
  "run_try w RETRY_LIMIT s =
     (case analyze w s of
        (Inl msg, s1) \<Rightarrow> (Some msg, s1)
      | (Inr (dir, analysisResult), s1) \<Rightarrow>
          (let s2 = addTimeline 0 (if passed analysisResult then PASSED else FAILED)
                      (s1\<lparr>repoDir := Some dir\<rparr>)
           in if passed analysisResult then (None, s2\<lparr>finalStatus := PASSED\<rparr>)
              else fixLoop w RETRY_LIMIT 1
                     (s2\<lparr>currentOutput := output analysisResult,
                         totalFailures := totalFailures s2 + 1\<rparr>)))"

text \<open>
  \<^verbatim>\<open>buildResults\<close>. \<open>iterationCount\<close> is the argument it passes to \<^verbatim>\<open>computeScore\<close>:
  \<^verbatim>\<open>this.timeline.length - 1, // exclude initial analysis\<close>. The record holds the
  branch, the counters, the status, the time, the score and the timeline of the report;
  its other keys (the identifiers of the run, the formatted time, the list of fixes and
  the date) are left out.
\<close>

record final_report =
  rep_branch :: string
  rep_totalFailures :: nat
  rep_totalFixes :: nat
  rep_totalCommits :: nat
  rep_finalStatus :: run_status
  rep_totalTimeMs :: int
  rep_scoreBreakdown :: score_breakdown
  rep_timeline :: "(nat \<times> run_status) list"

text \<open>The number of timeline entries with a given status.\<close>

definition count_status :: "run_status \<Rightarrow> (nat \<times> run_status) list \<Rightarrow> nat" where
  "count_status st entries = length (filter (\<lambda>e. snd e = st) entries)"

definition iterationCount :: "orch \<Rightarrow> int" where
  "iterationCount s = int (length (timeline s)) - 1"

definition buildResults :: "string \<Rightarrow> int \<Rightarrow> orch \<Rightarrow> final_report" where
  "buildResults branchName totalTime s =
     (let fixedCount = count_fixed (allFixes s) in
      \<lparr> rep_branch = branchName,
        rep_totalFailures = totalFailures s,
        rep_totalFixes = fixedCount,
        rep_totalCommits = totalCommits s,
        rep_finalStatus = finalStatus s,
        rep_totalTimeMs = totalTime,
        rep_scoreBreakdown =
          computeScore totalTime (int (totalCommits s)) (int fixedCount) (iterationCount s),
        rep_timeline = timeline s \<rparr>)"

text \<open>
  \<^verbatim>\<open>run()\<close> for a request \<open>(repoUrl, teamName, leaderName)\<close>. \<open>rejected\<close> is the error
  with which the promise rejects: of \<^verbatim>\<open>parseRepoUrl\<close>, which is called before the
  \<^verbatim>\<open>try\<close> block, or of \<^verbatim>\<open>saveResults\<close>, which is called after it. The cleanup is the
  last step: \<^verbatim>\<open>if (repoDir) { try { await fs.remove(repoDir) } catch ... }\<close>.
\<close>

record run_result =
  rejected :: "string option"
  report :: "final_report option"
  final :: orch

definition cleanup :: "world \<Rightarrow> orch \<Rightarrow> orch" where
  "cleanup w s =
     (case repoDir s of
        None \<Rightarrow> s
      | Some dir \<Rightarrow>
          if remove_ok w then s\<lparr>tmp_exists := False, work_tree := Map.empty\<rparr> else s)"

definition run :: "world \<Rightarrow> int \<Rightarrow> string \<times> string \<times> string \<Rightarrow> run_result" where
  "run w RETRY_LIMIT request =
     (case request of (repoUrl, teamName, leaderName) \<Rightarrow>
      (let s0 = broadcast ''pipeline_start'' initial in
       case parseRepoUrl repoUrl of
         Inl msg \<Rightarrow> \<lparr> rejected = Some msg, report = None, final = s0 \<rparr>
       | Inr ownerRepo \<Rightarrow>
           (let s1 = (case run_try w RETRY_LIMIT s0 of
                        (None, s) \<Rightarrow> s
                      | (Some msg, s) \<Rightarrow> addTimeline (iteration s) ERROR s);
                results = buildResults (generateBranchName teamName leaderName) (elapsed_ms w) s1
            in if \<not> save_ok w
               then \<lparr> rejected = Some ''saveResults failed'', report = None, final = s1 \<rparr>
               else \<lparr> rejected = None, report = Some results,
                      final = cleanup w (broadcast ''pipeline_done'' s1) \<rparr>)))"

section \<open>Submit endpoint (routes/agent.js)\<close>

text \<open>
  A field of the request body is any JSON value. The check
  \<^verbatim>\<open>!v || typeof v !== "string"\<close> passes exactly a non-empty string.
\<close>

datatype js_value = JUndefined | JNull | JBool bool | JNumber int | JString string | JObject

fun is_nonempty_string :: "js_value \<Rightarrow> bool" where
  "is_nonempty_string (JString s) = (s \<noteq> [])"
| "is_nonempty_string v = False"

fun string_of :: "js_value \<Rightarrow> string" where
  "string_of (JString s) = s"
| "string_of v = []"

record request_body =
  repoUrl :: js_value
  teamName :: js_value
  leaderName :: js_value

datatype response_body =
    ValidationError "string list"
  | InvalidRepositoryUrl
  | Running string string

record response =
  http_status :: nat
  body :: response_body

text \<open>
  \<^verbatim>\<open>POST /run-agent\<close>. \<open>runId\<close> is the fresh \<^verbatim>\<open>uuidv4()\<close>. After the checks the handler
  creates the run, starts the Orchestrator without waiting for it and answers \<open>202\<close>
  with the status \<^verbatim>\<open>running\<close>, the run id and the branch.
\<close>

definition run_agent_handler :: "string \<Rightarrow> request_body \<Rightarrow> response" where
  "run_agent_handler runId req =
     (let errors =
            (if \<not> is_nonempty_string (repoUrl req) then [''repoUrl is required''] else []) @
            (if \<not> is_nonempty_string (teamName req) then [''teamName is required''] else []) @
            (if \<not> is_nonempty_string (leaderName req) then [''leaderName is required''] else [])
      in if length errors > 0
         then \<lparr> http_status = 400, body = ValidationError errors \<rparr>
         else
           (case parseRepoUrl (string_of (repoUrl req)) of
              Inl msg \<Rightarrow> \<lparr> http_status = 400, body = InvalidRepositoryUrl \<rparr>
            | Inr ownerRepo \<Rightarrow>
                \<lparr> http_status = 202,
                  body = Running runId
                           (generateBranchName (string_of (teamName req))
                                               (string_of (leaderName req))) \<rparr>))"

definition valid_fields :: "request_body \<Rightarrow> bool" where
  "valid_fields req = (is_nonempty_string (repoUrl req) \<and> is_nonempty_string (teamName req)
                       \<and> is_nonempty_string (leaderName req))"

text \<open>
  The form of a repository URL in the words of the specification:
  \<^verbatim>\<open>https://github.com/{owner}/{repo}[.git]\<close>, with a non-empty owner and repository.
\<close>

definition spec_repo_url_form :: "string \<Rightarrow> bool" where
  "spec_repo_url_form url =
     (startsWith url ''https://github.com/'' \<and>
      (case split_on CHR ''/'' (drop (length ''https://github.com/'') url) of
         [owner, repo] \<Rightarrow> owner \<noteq> [] \<and> repo \<noteq> [] \<and> repo \<noteq> ''.git''
       | _ \<Rightarrow> False))"

text \<open>
  The strings that \<^verbatim>\<open>/github\.com\/([^/]+)\/([^/.]+)/\<close> matches somewhere, said without
  the expression: the text \<^verbatim>\<open>github.com/\<close>, a non-empty owner without a slash, a slash,
  and one more character that is neither a slash nor a dot.
\<close>

definition contains_repo_path :: "string \<Rightarrow> bool" where
  "contains_repo_path url =
     (\<exists>pre owner c rest.
        url = pre @ ''github.com/'' @ owner @ ''/'' @ c # rest
        \<and> owner \<noteq> [] \<and> CHR ''/'' \<notin> set owner \<and> c \<noteq> CHR ''/'' \<and> c \<noteq> CHR ''.'')"


text \<open>
  The URL that \<^verbatim>\<open>cloneRepo\<close> hands to git for an accepted request. \<open>token\<close> is
  \<^verbatim>\<open>process.env.GITHUB_TOKEN\<close>, absent or a string (the empty string is falsy):
  \<^verbatim>\<open>if (token && repoUrl.startsWith("https://"))\<close> the first \<^verbatim>\<open>https://\<close> of the URL
  is replaced by \<^verbatim>\<open>https://${token}@\<close>.
\<close>

definition clone_url :: "string option \<Rightarrow> string \<Rightarrow> string" where
  "clone_url token url =
     (case token of
        None \<Rightarrow> url
      | Some t \<Rightarrow>
          if t \<noteq> [] \<and> startsWith url ''https://''
          then replace_str url ''https://'' (''https://'' @ t @ ''@'')
          else url)"
section \<open>The branch name in the words of the specification\<close>

text \<open>
  The specification derives the branch name in these steps: uppercase each name, strip
  non-alphanumerics, collapse whitespace to a single underscore, join with an
  underscore, append the fixed suffix. The definitions below follow these words, on
  plain list functions. Stripping keeps whitespace, which the next step collapses.
\<close>

definition strip_non_alphanumerics :: "string \<Rightarrow> string" where
  "strip_non_alphanumerics s = filter (\<lambda>c. isUpper c \<or> isDigit c \<or> isWhiteSpace c) s"

function collapse_whitespace :: "string \<Rightarrow> string" where
  "collapse_whitespace [] = []"
| "collapse_whitespace (c # cs) =
     (if isWhiteSpace c then CHR ''_'' # collapse_whitespace (dropWhile isWhiteSpace cs)
      else c # collapse_whitespace cs)"
  by pat_completeness auto
termination
  by (relation "measure length") (auto simp: length_dropWhile_le less_Suc_eq_le)

definition spec_sanitize :: "string \<Rightarrow> string" where
  "spec_sanitize s = collapse_whitespace (strip_non_alphanumerics (toUpperCase s))"

definition spec_branch_name :: "string \<Rightarrow> string \<Rightarrow> string" where
  "spec_branch_name team leader = spec_sanitize team @ ''_'' @ spec_sanitize leader @ ''_AI_Fix''"

section \<open>Example runs\<close>

text \<open>
  Concrete inputs for the results below. The repository has one file; the test command
  fails in the native sandbox with a syntax error on its output; the request names a
  GitHub repository.
\<close>

definition example_request :: "string \<times> string \<times> string" where
  "example_request = (''https://github.com/a/b'', ''t'', ''l'')"

definition failing_tests :: sandbox where
  "failing_tests =
     Native \<lparr> error = Some \<lparr> code = Some 1, killed = False, signal = None \<rparr>,
              cb_stdout = ''SyntaxError'', cb_stderr = '''' \<rparr>"

definition example_fix :: fix_proposal where
  "example_fix =
     \<lparr> file = Some ''a.py'', lineNumber = Some (Finite 1), bugType = SYNTAX,
       description = ''d'', originalCode = ''def f()'', fixedCode = ''def f():'',
       commitMessage = ''m'' \<rparr>"

text \<open>
  The JSON text of the array that holds \<open>example_fix\<close>, and \<^verbatim>\<open>JSON.parse\<close> for the
  texts of these runs: it yields that array for this text and throws on any other.
\<close>

definition example_json :: string where
  "example_json =
     ''[{'' @ [CHR 0x22] @ ''file'' @ [CHR 0x22] @ '':'' @ [CHR 0x22] @ ''a.py'' @ [CHR 0x22] @
     '','' @ [CHR 0x22] @ ''lineNumber'' @ [CHR 0x22] @ '':1,'' @
     [CHR 0x22] @ ''bugType'' @ [CHR 0x22] @ '':'' @ [CHR 0x22] @ ''SYNTAX'' @ [CHR 0x22] @
     '','' @ [CHR 0x22] @ ''description'' @ [CHR 0x22] @ '':'' @ [CHR 0x22] @ ''d'' @ [CHR 0x22] @
     '','' @ [CHR 0x22] @ ''originalCode'' @ [CHR 0x22] @ '':'' @ [CHR 0x22] @ ''def f()'' @
     [CHR 0x22] @
     '','' @ [CHR 0x22] @ ''fixedCode'' @ [CHR 0x22] @ '':'' @ [CHR 0x22] @ ''def f():'' @
     [CHR 0x22] @
     '','' @ [CHR 0x22] @ ''commitMessage'' @ [CHR 0x22] @ '':'' @ [CHR 0x22] @ ''m'' @
     [CHR 0x22] @ ''}]''"

definition example_json_parse :: "string \<Rightarrow> fix_proposal list option" where
  "example_json_parse s = (if s = example_json then Some [example_fix] else None)"

text \<open>
  Every test run fails, the model answers with \<open>example_json\<close>, the fix applies, the
  commit is pushed, and the CI run of the branch succeeds.
\<close>

definition world_ci_passes :: world where
  "world_ci_passes =
     \<lparr> clone_shallow_ok = True, clone_full_ok = True,
       repo_tree = [''a.py'' \<mapsto> File ''def f()''],
       sandbox_at = (\<lambda>i. failing_tests),
       llm_at = (\<lambda>i m a. Responds example_json),
       json_parse = example_json_parse,
       commit_at = (\<lambda>i. Inr 1),
       ci_at = (\<lambda>i. Inr True),
       save_ok = True, remove_ok = True, elapsed_ms = 1000 \<rparr>"

text \<open>The same, but the model answers with a text that holds no JSON array.\<close>

definition world_no_json :: world where
  "world_no_json = world_ci_passes\<lparr>llm_at := (\<lambda>i m a. Responds ''I cannot help'')\<rparr>"

text \<open>The same, but every call of every model is rejected with a rate-limit error.\<close>

definition world_rate_limited :: world where
  "world_rate_limited = world_ci_passes\<lparr>llm_at := (\<lambda>i m a. Rejects ''429 Too Many Requests'')\<rparr>"

text \<open>The same, but both clones fail.\<close>

definition world_clone_fails :: world where
  "world_clone_fails = world_ci_passes\<lparr>clone_shallow_ok := False, clone_full_ok := False\<rparr>"

text \<open>The same, but the image of the sandbox cannot be pulled for the first test run.\<close>

definition world_pull_fails :: world where
  "world_pull_fails =
     world_ci_passes\<lparr>sandbox_at :=
       (\<lambda>i. Container \<lparr> image_state = PullFails ''pull access denied'',
                            create_error = None, container = TimesOut \<rparr>)\<rparr>"

text \<open>A state at the start of the first iteration, after a failed test run.\<close>

definition example_state :: orch where
  "example_state = initial\<lparr>iteration := 1, currentOutput := ''SyntaxError''\<rparr>"

section \<open>Scoring: results\<close>

lemma computeScore_base: "base (computeScore t c f i) = 100"
  by (simp add: computeScore_def Let_def)

lemma computeScore_speedBonus:
  "speedBonus (computeScore t c f i) = (if t < 300000 then 10 else 0)"
  by (simp add: computeScore_def Let_def)

lemma computeScore_fixBonus: "fixBonus (computeScore t c f i) = min f 20 * 2"
  by (simp add: computeScore_def Let_def)

lemma computeScore_commitPenalty:
  "commitPenalty (computeScore t c f i) = - (max 0 (c - 20) * 2)"
  by (simp add: computeScore_def Let_def max_def)

lemma computeScore_iterationPenalty:
  "iterationPenalty (computeScore t c f i) = - (max 0 (i - 3) * 5)"
  by (simp add: computeScore_def Let_def max_def)

lemma computeScore_total:
  "total (computeScore t c f i) =
     max 0 (100 + (if t < 300000 then 10 else 0) + min f 20 * 2
            - max 0 (c - 20) * 2 - max 0 (i - 3) * 5)"
proof -
  have c: "(if c > 20 then (c - 20) * 2 else 0) = max 0 (c - 20) * 2"
    by (simp add: max_def)
  have i: "(if i > 3 then (i - 3) * 5 else 0) = max 0 (i - 3) * 5"
    by (simp add: max_def)
  have "total (computeScore t c f i) =
          max (100 + (if t < 300000 then 10 else 0) + min f 20 * 2
               - (if c > 20 then (c - 20) * 2 else 0)
               - (if i > 3 then (i - 3) * 5 else 0)) 0"
    by (simp add: computeScore_def Let_def)
  then show ?thesis
    unfolding c i by (simp only: max.commute)
qed

text \<open>
  C3 (as stated): the returned field \<open>commitPenalty\<close> equals
  \<open>max(0, commitCount - 20) * 2\<close>. On the spec's own example (25 commits) the
  returned field is \<open>-10\<close>, not \<open>10\<close>.
\<close>

theorem C3_commitPenalty_sign_counterexample:
  "commitPenalty (computeScore 200000 25 10 3) = - 10
   \<and> commitPenalty (computeScore 200000 25 10 3) \<noteq> max 0 (25 - 20) * 2"
  by (simp add: computeScore_commitPenalty)

text \<open>
  C3 (amended): for all inputs the breakdown has \<open>base = 100\<close>, \<open>speedBonus = 10\<close>
  exactly when the time is below 300000 ms and \<open>0\<close> otherwise,
  \<open>fixBonus = min(fixCount, 20) * 2\<close>; the fields \<open>commitPenalty\<close> and
  \<open>iterationPenalty\<close> hold the penalties negated,
  \<open>-(max(0, commitCount - 20) * 2)\<close> and \<open>-(max(0, iterationCount - 3) * 5)\<close>;
  \<open>total\<close> is \<open>max(0, base + speedBonus + fixBonus - max(0, commitCount - 20) * 2
  - max(0, iterationCount - 3) * 5)\<close>, the sum of the five returned fields clamped
  below at \<open>0\<close>; and the commit-cap example yields \<open>120\<close>.
\<close>

theorem C3_computeScore_breakdown:
  "base (computeScore t c f i) = 100
   \<and> speedBonus (computeScore t c f i) = (if t < 300000 then 10 else 0)
   \<and> fixBonus (computeScore t c f i) = min f 20 * 2
   \<and> commitPenalty (computeScore t c f i) = - (max 0 (c - 20) * 2)
   \<and> iterationPenalty (computeScore t c f i) = - (max 0 (i - 3) * 5)
   \<and> total (computeScore t c f i) =
         max 0 (base (computeScore t c f i) + speedBonus (computeScore t c f i)
                + fixBonus (computeScore t c f i)
                - max 0 (c - 20) * 2 - max 0 (i - 3) * 5)
   \<and> total (computeScore t c f i) =
         max 0 (base (computeScore t c f i) + speedBonus (computeScore t c f i)
                + fixBonus (computeScore t c f i) + commitPenalty (computeScore t c f i)
                + iterationPenalty (computeScore t c f i))
   \<and> total (computeScore 200000 25 10 3) = 120"
  unfolding computeScore_base computeScore_speedBonus computeScore_fixBonus
    computeScore_commitPenalty computeScore_iterationPenalty computeScore_total
  by simp

section \<open>Branch name: results\<close>

lemma replace_all_Atom_Nil: "replace_all ci (Atom k) repl [] = []"
  by (subst replace_all.simps) simp

lemma replace_all_Atom_Cons:
  "replace_all ci (Atom k) repl (c # cs) =
     (if cmatch ci k c then repl @ replace_all ci (Atom k) repl cs
      else c # replace_all ci (Atom k) repl cs)"
  by (subst replace_all.simps) simp

lemma replace_all_strip:
  "replace_all False re_not_alnum_space [] s = strip_non_alphanumerics s"
  unfolding re_not_alnum_space_def strip_non_alphanumerics_def
  by (induction s)
     (simp_all add: replace_all_Atom_Nil replace_all_Atom_Cons isUpper_def isDigit_def)

lemma star_Atom_greedy:
  "length s \<le> n \<Longrightarrow>
     \<exists>rest. star (rmatch ci (Atom k)) n (s, caps) = (dropWhile (cmatch ci k) s, caps) # rest"
proof (induction n arbitrary: s)
  case 0
  then show ?case by simp
next
  case (Suc n)
  show ?case
  proof (cases s)
    case Nil
    then show ?thesis by simp
  next
    case (Cons c cs)
    show ?thesis
    proof (cases "cmatch ci k c")
      case True
      from Suc.prems Cons have "length cs \<le> n" by simp
      from Suc.IH[OF this] obtain rest where
        "star (rmatch ci (Atom k)) n (cs, caps) = (dropWhile (cmatch ci k) cs, caps) # rest" ..
      with Cons True show ?thesis by simp
    next
      case False
      with Cons show ?thesis by simp
    qed
  qed
qed

lemma rmatch_Plus_Atom_Nil: "rmatch ci (Plus (Atom k)) ([], caps) = []"
  by simp

lemma rmatch_Plus_Atom_Cons:
  "\<exists>rest. rmatch ci (Plus (Atom k)) (c # cs, caps) =
     (if cmatch ci k c then (dropWhile (cmatch ci k) cs, caps) # rest else [])"
proof (cases "cmatch ci k c")
  case True
  obtain rest where "star (rmatch ci (Atom k)) (length cs) (cs, caps)
                       = (dropWhile (cmatch ci k) cs, caps) # rest"
    using star_Atom_greedy[of cs "length cs" ci k caps] by auto
  with True show ?thesis by simp
next
  case False
  then show ?thesis by simp
qed

lemma replace_all_Plus_Atom_Nil: "replace_all ci (Plus (Atom k)) repl [] = []"
  by (subst replace_all.simps) simp

lemma replace_all_Plus_Atom_Cons:
  "replace_all ci (Plus (Atom k)) repl (c # cs) =
     (if cmatch ci k c then repl @ replace_all ci (Plus (Atom k)) repl (dropWhile (cmatch ci k) cs)
      else c # replace_all ci (Plus (Atom k)) repl cs)"
proof -
  obtain rest where r: "rmatch ci (Plus (Atom k)) (c # cs, []) =
     (if cmatch ci k c then (dropWhile (cmatch ci k) cs, []) # rest else [])"
    using rmatch_Plus_Atom_Cons[of ci k c cs "[]"] by auto
  have len: "length (dropWhile (cmatch ci k) cs) < Suc (length cs)"
    by (simp add: length_dropWhile_le less_Suc_eq_le)
  show ?thesis
    by (subst replace_all.simps) (simp add: r len del: rmatch.simps)
qed

lemma cmatch_Space: "cmatch ci Space = isWhiteSpace"
  by (rule ext) simp

lemma replace_all_collapse:
  "replace_all False re_spaces ''_'' s = collapse_whitespace s"
  unfolding re_spaces_def
  by (induction s rule: collapse_whitespace.induct)
     (simp_all add: replace_all_Plus_Atom_Nil replace_all_Plus_Atom_Cons cmatch_Space
        del: cmatch.simps)

lemma sanitize_spec: "sanitize s = spec_sanitize (trim s)"
  by (simp add: sanitize_def spec_sanitize_def replace_all_strip replace_all_collapse)

lemma underscore_not_space: "\<not> isWhiteSpace CHR ''_''"
  by (simp add: isWhiteSpace_def)

lemma collapse_no_whitespace: "c \<in> set (collapse_whitespace s) \<Longrightarrow> \<not> isWhiteSpace c"
proof (induction s rule: collapse_whitespace.induct)
  case 1
  then show ?case by simp
next
  case (2 d ds)
  then show ?case by (auto simp: underscore_not_space split: if_splits)
qed

lemma suffix_no_whitespace: "c \<in> set ''_AI_Fix'' \<Longrightarrow> \<not> isWhiteSpace c"
  by (auto simp: isWhiteSpace_def)

text \<open>
  C8 (as stated): the branch name is obtained by uppercasing, stripping and collapsing
  the two names as they are given. The source trims each name first, so for a team name
  with a leading blank the two differ.
\<close>

theorem C8_trim_counterexample:
  "generateBranchName '' a'' ''b'' = ''A_B_AI_Fix''
   \<and> spec_branch_name '' a'' ''b'' = ''_A_B_AI_Fix''
   \<and> generateBranchName '' a'' ''b'' \<noteq> spec_branch_name '' a'' ''b''"
proof -
  have 1: "generateBranchName '' a'' ''b'' = ''A_B_AI_Fix''" by code_simp
  have 2: "spec_branch_name '' a'' ''b'' = ''_A_B_AI_Fix''" by code_simp
  show ?thesis unfolding 1 2 by simp
qed

text \<open>
  C8 (amended): for all team and leader names, the branch name is obtained by first
  trimming leading and trailing whitespace from each name, then uppercasing each,
  stripping the characters that are neither upper-case letters, digits nor whitespace,
  replacing each run of whitespace by one underscore, joining the two with an
  underscore and appending \<^verbatim>\<open>_AI_Fix\<close>; and no whitespace character occurs in the
  result.
\<close>

theorem C8_branch_name:
  "generateBranchName team leader = spec_branch_name (trim team) (trim leader)
   \<and> (\<forall>c \<in> set (generateBranchName team leader). \<not> isWhiteSpace c)"
proof
  show eq: "generateBranchName team leader = spec_branch_name (trim team) (trim leader)"
    by (simp add: generateBranchName_def spec_branch_name_def sanitize_spec)
  show "\<forall>c \<in> set (generateBranchName team leader). \<not> isWhiteSpace c"
    unfolding eq spec_branch_name_def spec_sanitize_def
    using collapse_no_whitespace suffix_no_whitespace underscore_not_space
    by auto
qed

theorem C8_witness:
  "generateBranchName '' Code  Warriors!'' ''John Doe '' = ''CODE_WARRIORS_JOHN_DOE_AI_Fix''
   \<and> list_all (\<lambda>c. \<not> isWhiteSpace c) (generateBranchName '' Code  Warriors!'' ''John Doe '')"
proof -
  have s: "spec_branch_name (trim '' Code  Warriors!'') (trim ''John Doe '')
             = ''CODE_WARRIORS_JOHN_DOE_AI_Fix''"
    by code_simp
  from C8_branch_name[of "'' Code  Warriors!''" "''John Doe ''"] s
  show ?thesis by (simp add: list_all_iff)
qed

section \<open>Error classifier: results\<close>

lemma parse_lines_Cons:
  "parse_lines seen (l # ls) =
     (if classifyError l = UNKNOWN \<and> \<not> includes_str l ''Error'' \<and> \<not> includes_str l ''FAIL''
      then parse_lines seen ls
      else if dedup_key (fst (extractLocation l)) (snd (extractLocation l)) (classifyError l) \<in> set seen
      then parse_lines seen ls
      else \<lparr> file = fst (extractLocation l), lineNumber = snd (extractLocation l),
             bugType = classifyError l, rawMessage = trim l \<rparr>
           # parse_lines (dedup_key (fst (extractLocation l)) (snd (extractLocation l))
                           (classifyError l) # seen) ls)"
  by (simp add: Let_def split: prod.split)

lemma parse_lines_unknown:
  "r \<in> set (parse_lines seen ls) \<Longrightarrow>
     \<exists>line \<in> set ls. rawMessage r = trim line \<and> bugType r = classifyError line
        \<and> (bugType r = UNKNOWN \<longrightarrow> includes_str line ''Error'' \<or> includes_str line ''FAIL'')"
proof (induction ls arbitrary: seen)
  case Nil
  then show ?case by simp
next
  case (Cons l ls)
  let ?skip = "classifyError l = UNKNOWN \<and> \<not> includes_str l ''Error'' \<and> \<not> includes_str l ''FAIL''"
  let ?rec = "\<lparr> file = fst (extractLocation l), lineNumber = snd (extractLocation l),
               bugType = classifyError l, rawMessage = trim l \<rparr>"
  from Cons.prems
  have "(\<exists>seen'. r \<in> set (parse_lines seen' ls)) \<or> (r = ?rec \<and> \<not> ?skip)"
    unfolding parse_lines_Cons by (auto split: if_splits)
  then show ?case
  proof
    assume "\<exists>seen'. r \<in> set (parse_lines seen' ls)"
    then obtain seen' where "r \<in> set (parse_lines seen' ls)" ..
    from Cons.IH[OF this] show ?thesis by auto
  next
    assume "r = ?rec \<and> \<not> ?skip"
    then show ?thesis by auto
  qed
qed

lemma length_parse_lines: "length (parse_lines seen ls) \<le> length ls"
proof (induction ls arbitrary: seen)
  case Nil
  then show ?case by simp
next
  case (Cons l ls)
  have a: "length (parse_lines seen' ls) \<le> Suc (length ls)" for seen'
    using Cons.IH[of seen'] by simp
  show ?case
    unfolding parse_lines_Cons using Cons.IH a by simp
qed

text \<open>
  C9: for every input string the classifier returns a list (of at most as many records
  as the input has lines), and every returned record comes from a line of the input,
  carries that line's classification, and has the kind \<open>UNKNOWN\<close> only if that line
  contains \<^verbatim>\<open>Error\<close> or \<^verbatim>\<open>FAIL\<close>.
\<close>

theorem C9_classifier_unknown_only_with_marker:
  "length (parseErrorLog rawLog) \<le> length (split_on (CHR 0x0A) rawLog)
   \<and> (\<forall>r \<in> set (parseErrorLog rawLog).
         \<exists>line \<in> set (split_on (CHR 0x0A) rawLog).
           rawMessage r = trim line \<and> bugType r = classifyError line
           \<and> (bugType r = UNKNOWN \<longrightarrow> includes_str line ''Error'' \<or> includes_str line ''FAIL''))"
proof
  have "length (parseErrorLog rawLog)
          \<le> length (filter (\<lambda>l. trim l \<noteq> []) (split_on (CHR 0x0A) rawLog))"
    unfolding parseErrorLog_def by (rule length_parse_lines)
  also have "\<dots> \<le> length (split_on (CHR 0x0A) rawLog)" by (rule length_filter_le)
  finally show "length (parseErrorLog rawLog) \<le> length (split_on (CHR 0x0A) rawLog)" .
next
  show "\<forall>r \<in> set (parseErrorLog rawLog).
         \<exists>line \<in> set (split_on (CHR 0x0A) rawLog).
           rawMessage r = trim line \<and> bugType r = classifyError line
           \<and> (bugType r = UNKNOWN \<longrightarrow> includes_str line ''Error'' \<or> includes_str line ''FAIL'')"
  proof
    fix r assume "r \<in> set (parseErrorLog rawLog)"
    then have "r \<in> set (parse_lines [] (filter (\<lambda>l. trim l \<noteq> []) (split_on (CHR 0x0A) rawLog)))"
      by (simp add: parseErrorLog_def)
    from parse_lines_unknown[OF this] show "\<exists>line \<in> set (split_on (CHR 0x0A) rawLog).
           rawMessage r = trim line \<and> bugType r = classifyError line
           \<and> (bugType r = UNKNOWN \<longrightarrow> includes_str line ''Error'' \<or> includes_str line ''FAIL'')"
      by auto
  qed
qed

theorem C9_witness:
  "parseErrorLog ''FAIL x\<newline>ok'' =
     [\<lparr> file = None, lineNumber = None, bugType = UNKNOWN, rawMessage = ''FAIL x'' \<rparr>]
   \<and> (\<exists>line \<in> set (split_on (CHR 0x0A) ''FAIL x\<newline>ok'').
         ''FAIL x'' = trim line \<and> (includes_str line ''Error'' \<or> includes_str line ''FAIL''))"
proof -
  have e: "parseErrorLog ''FAIL x\<newline>ok'' =
     [\<lparr> file = None, lineNumber = None, bugType = UNKNOWN, rawMessage = ''FAIL x'' \<rparr>]"
    by code_simp
  from C9_classifier_unknown_only_with_marker[of "''FAIL x\<newline>ok''"]
  have "\<forall>r \<in> set (parseErrorLog ''FAIL x\<newline>ok'').
         \<exists>line \<in> set (split_on (CHR 0x0A) ''FAIL x\<newline>ok'').
           rawMessage r = trim line \<and> bugType r = classifyError line
           \<and> (bugType r = UNKNOWN \<longrightarrow> includes_str line ''Error'' \<or> includes_str line ''FAIL'')"
    by (rule conjunct2)
  with e show ?thesis by simp
qed

section \<open>Submit endpoint: results\<close>

lemma str_match_Some: "str_match False p s = Some r \<longleftrightarrow> s = p @ r"
  by (induction False p s rule: str_match.induct) auto

lemma in_rmatch_Str:
  "st' \<in> set (rmatch False (Str p) st) \<longleftrightarrow> fst st = p @ fst st' \<and> snd st' = snd st"
proof (cases "str_match False p (fst st)")
  case None
  have "fst st \<noteq> p @ fst st'"
  proof
    assume "fst st = p @ fst st'"
    then have "str_match False p (fst st) = Some (fst st')" by (simp add: str_match_Some)
    with None show False by simp
  qed
  with None show ?thesis by simp
next
  case (Some r)
  then have r: "fst st = p @ r" by (simp add: str_match_Some)
  from Some have "st' \<in> set (rmatch False (Str p) st) \<longleftrightarrow> st' = (r, snd st)" by simp
  also have "\<dots> \<longleftrightarrow> fst st = p @ fst st' \<and> snd st' = snd st"
    unfolding r by (cases st') auto
  finally show ?thesis .
qed

lemma in_star_Atom:
  "st' \<in> set (star (rmatch ci (Atom k)) n (s, caps)) \<Longrightarrow>
     \<exists>m. s = m @ fst st' \<and> (\<forall>x \<in> set m. cmatch ci k x) \<and> snd st' = caps"
proof (induction n arbitrary: s)
  case 0
  then show ?case by simp
next
  case (Suc n)
  show ?case
  proof (cases "st' = (s, caps)")
    case True
    then show ?thesis by simp
  next
    case False
    with Suc.prems obtain c cs where s: "s = c # cs" and c: "cmatch ci k c"
      and in': "st' \<in> set (star (rmatch ci (Atom k)) n (cs, caps))"
      by (cases s) (auto split: if_splits)
    from Suc.IH[OF in'] obtain m where
      "cs = m @ fst st'" "\<forall>x \<in> set m. cmatch ci k x" "snd st' = caps" by blast
    with s c have "s = (c # m) @ fst st' \<and> (\<forall>x \<in> set (c # m). cmatch ci k x) \<and> snd st' = caps"
      by simp
    then show ?thesis by blast
  qed
qed

lemma in_rmatch_Plus_Atom:
  assumes "st' \<in> set (rmatch ci (Plus (Atom k)) (s, caps))"
  shows "\<exists>m. m \<noteq> [] \<and> s = m @ fst st' \<and> (\<forall>x \<in> set m. cmatch ci k x) \<and> snd st' = caps"
proof -
  from assms obtain c cs where s: "s = c # cs" and c: "cmatch ci k c"
    and in': "st' \<in> set (star (rmatch ci (Atom k)) (length cs) (cs, caps))"
    by (cases s) (auto split: if_splits)
  from in_star_Atom[OF in'] obtain m where
    "cs = m @ fst st'" "\<forall>x \<in> set m. cmatch ci k x" "snd st' = caps" by blast
  with s c have "c # m \<noteq> [] \<and> s = (c # m) @ fst st'
                 \<and> (\<forall>x \<in> set (c # m). cmatch ci k x) \<and> snd st' = caps"
    by simp
  then show ?thesis by blast
qed

lemma plus_head_in:
  "cmatch ci k c \<Longrightarrow>
     (dropWhile (cmatch ci k) cs, caps) \<in> set (rmatch ci (Plus (Atom k)) (c # cs, caps))"
  using rmatch_Plus_Atom_Cons[of ci k c cs caps] by auto

lemma repo_url_sound:
  assumes "rmatch False re_repo_url (s, []) \<noteq> []"
  shows "\<exists>owner c rest. s = ''github.com/'' @ owner @ ''/'' @ c # rest
           \<and> owner \<noteq> [] \<and> CHR ''/'' \<notin> set owner \<and> c \<noteq> CHR ''/'' \<and> c \<noteq> CHR ''.''"
proof -
  let ?k1 = "NoneOf [Lit CHR ''/'']"
  let ?k2 = "NoneOf [Lit CHR ''/'', Lit CHR ''.'']"
  from assms obtain st where "st \<in> set (rmatch False re_repo_url (s, []))"
    by (cases "rmatch False re_repo_url (s, [])") auto
  then obtain y1 y2 y3 y4 where
        1: "y1 \<in> set (rmatch False (Str ''github.com/'') (s, []))"
    and 2: "y2 \<in> set (rmatch False (Plus (Atom ?k1)) y1)"
    and 3: "y3 \<in> set (rmatch False (Str ''/'') (fst y2, (1, take (length (fst y1) - length (fst y2)) (fst y1)) # snd y2))"
    and 4: "y4 \<in> set (rmatch False (Plus (Atom ?k2)) y3)"
    unfolding re_repo_url_def by (auto simp del: rmatch.simps(2,7) simp add: rmatch.simps(3,8))
  from 1 have s1: "s = ''github.com/'' @ fst y1" by (simp add: in_rmatch_Str del: rmatch.simps)
  from in_rmatch_Plus_Atom[of y2 False ?k1 "fst y1" "snd y1"] 2
  obtain owner where o: "owner \<noteq> []" "fst y1 = owner @ fst y2" "\<forall>x \<in> set owner. cmatch False ?k1 x"
    by auto
  from 3 have s3: "fst y2 = ''/'' @ fst y3" by (simp add: in_rmatch_Str del: rmatch.simps)
  from in_rmatch_Plus_Atom[of y4 False ?k2 "fst y3" "snd y3"] 4
  obtain m where m: "m \<noteq> []" "fst y3 = m @ fst y4" "\<forall>x \<in> set m. cmatch False ?k2 x"
    by auto
  from m(1) obtain c ms where cm: "m = c # ms" by (cases m) auto
  from o(3) have "CHR ''/'' \<notin> set owner" by auto
  moreover from m(3) cm have "c \<noteq> CHR ''/'' \<and> c \<noteq> CHR ''.''" by auto
  moreover have "s = ''github.com/'' @ owner @ ''/'' @ c # (ms @ fst y4)"
    using s1 o(2) s3 m(2) cm by simp
  ultimately show ?thesis using o(1) by blast
qed

lemma repo_url_complete:
  assumes "owner \<noteq> []" "CHR ''/'' \<notin> set owner" "c \<noteq> CHR ''/''" "c \<noteq> CHR ''.''"
  shows "rmatch False re_repo_url (''github.com/'' @ owner @ ''/'' @ c # rest, []) \<noteq> []"
proof -
  let ?k1 = "NoneOf [Lit CHR ''/'']"
  let ?k2 = "NoneOf [Lit CHR ''/'', Lit CHR ''.'']"
  let ?s1 = "owner @ ''/'' @ c # rest"
  from assms(1) obtain p os where ow: "owner = p # os" by (cases owner) auto
  have k1: "\<forall>x \<in> set owner. cmatch False ?k1 x" using assms(2) by auto
  have dw: "dropWhile (cmatch False ?k1) (os @ ''/'' @ c # rest) = ''/'' @ c # rest"
    using k1 ow by (simp add: dropWhile_append3)
  have 1: "(?s1, []) \<in> set (rmatch False (Str ''github.com/'') (''github.com/'' @ ?s1, []))"
    by (simp add: in_rmatch_Str del: rmatch.simps)
  have 2: "(''/'' @ c # rest, []) \<in> set (rmatch False (Plus (Atom ?k1)) (?s1, []))"
    using plus_head_in[of False ?k1 p "os @ ''/'' @ c # rest" "[]"] k1 ow dw by simp
  have 3: "(c # rest, caps) \<in> set (rmatch False (Str ''/'') (''/'' @ c # rest, caps))" for caps
    by (simp add: in_rmatch_Str del: rmatch.simps)
  have 4: "rmatch False (Plus (Atom ?k2)) (c # rest, caps) \<noteq> []" for caps
    using plus_head_in[of False ?k2 c rest caps] assms(3,4) by auto
  have g2: "rmatch False (Group 2 (Plus (Atom ?k2))) (c # rest, caps) \<noteq> []" for caps
    using 4[of caps] by (simp del: rmatch.simps(7))
  have r2: "rmatch False (Seq (Str ''/'') (Group 2 (Plus (Atom ?k2)))) (''/'' @ c # rest, caps) \<noteq> []"
    for caps
    using 3[of caps] g2[of caps] by (auto simp del: rmatch.simps(2,7,8) simp add: rmatch.simps(3))
  have r1: "rmatch False (Seq (Group 1 (Plus (Atom ?k1)))
                              (Seq (Str ''/'') (Group 2 (Plus (Atom ?k2))))) (?s1, []) \<noteq> []"
    using 2 r2 by (fastforce simp del: rmatch.simps(2,7) simp add: rmatch.simps(3,8))
  show ?thesis
    unfolding re_repo_url_def using 1 r1
    by (fastforce simp del: rmatch.simps(2,7,8) append.simps simp add: rmatch.simps(3))
qed

lemma regex_exec_from_Some:
  "regex_exec_from ci r acc s \<noteq> None
     \<longleftrightarrow> (\<exists>pre suf. s = pre @ suf \<and> rmatch ci r (suf, []) \<noteq> [])"
proof (induction s arbitrary: acc)
  case Nil
  show ?case by (subst regex_exec_from.simps) (simp split: list.splits)
next
  case (Cons c cs)
  show ?case
  proof (cases "rmatch ci r (c # cs, [])")
    case (Cons st sts)
    then have "regex_exec_from ci r acc (c # cs) \<noteq> None"
      by (subst regex_exec_from.simps) simp
    moreover have "\<exists>pre suf. c # cs = pre @ suf \<and> rmatch ci r (suf, []) \<noteq> []"
      using Cons by (intro exI[of _ "[]"] exI[of _ "c # cs"]) simp
    ultimately show ?thesis by blast
  next
    case Nil
    then have "regex_exec_from ci r acc (c # cs) = regex_exec_from ci r (c # acc) cs"
      by (subst regex_exec_from.simps) simp
    also have "\<dots> \<noteq> None \<longleftrightarrow> (\<exists>pre suf. cs = pre @ suf \<and> rmatch ci r (suf, []) \<noteq> [])"
      by (rule Cons.IH)
    also have "\<dots> \<longleftrightarrow> (\<exists>pre suf. c # cs = pre @ suf \<and> rmatch ci r (suf, []) \<noteq> [])"
    proof
      assume "\<exists>pre suf. cs = pre @ suf \<and> rmatch ci r (suf, []) \<noteq> []"
      then obtain pre suf where "cs = pre @ suf" "rmatch ci r (suf, []) \<noteq> []" by blast
      then have "c # cs = (c # pre) @ suf \<and> rmatch ci r (suf, []) \<noteq> []" by simp
      then show "\<exists>pre suf. c # cs = pre @ suf \<and> rmatch ci r (suf, []) \<noteq> []" by blast
    next
      assume "\<exists>pre suf. c # cs = pre @ suf \<and> rmatch ci r (suf, []) \<noteq> []"
      then obtain pre suf where ps: "c # cs = pre @ suf" "rmatch ci r (suf, []) \<noteq> []" by blast
      with Nil have "pre \<noteq> []" by (cases pre) auto
      with ps(1) obtain pre' where "pre = c # pre'" "cs = pre' @ suf" by (cases pre) auto
      with ps(2) show "\<exists>pre suf. cs = pre @ suf \<and> rmatch ci r (suf, []) \<noteq> []" by blast
    qed
    finally show ?thesis .
  qed
qed

lemma regex_test_repo_url: "regex_test False re_repo_url url \<longleftrightarrow> contains_repo_path url"
proof
  assume "regex_test False re_repo_url url"
  then obtain pre suf where u: "url = pre @ suf" and m: "rmatch False re_repo_url (suf, []) \<noteq> []"
    unfolding regex_test_def regex_exec_def regex_exec_from_Some by blast
  from repo_url_sound[OF m] u show "contains_repo_path url"
    unfolding contains_repo_path_def by blast
next
  assume "contains_repo_path url"
  then obtain pre owner c rest where
    u: "url = pre @ ''github.com/'' @ owner @ ''/'' @ c # rest"
    and o: "owner \<noteq> []" "CHR ''/'' \<notin> set owner" "c \<noteq> CHR ''/''" "c \<noteq> CHR ''.''"
    unfolding contains_repo_path_def by blast
  from repo_url_complete[OF o, of rest] u show "regex_test False re_repo_url url"
    unfolding regex_test_def regex_exec_def regex_exec_from_Some by blast
qed

lemma handler_cases:
  "run_agent_handler runId req =
     (if \<not> valid_fields req
      then \<lparr> http_status = 400,
             body = ValidationError
               ((if \<not> is_nonempty_string (repoUrl req) then [''repoUrl is required''] else []) @
                (if \<not> is_nonempty_string (teamName req) then [''teamName is required''] else []) @
                (if \<not> is_nonempty_string (leaderName req) then [''leaderName is required''] else [])) \<rparr>
      else if regex_test False re_repo_url (string_of (repoUrl req))
      then \<lparr> http_status = 202,
             body = Running runId (generateBranchName (string_of (teamName req))
                                                      (string_of (leaderName req))) \<rparr>
      else \<lparr> http_status = 400, body = InvalidRepositoryUrl \<rparr>)"
  by (auto simp: run_agent_handler_def valid_fields_def Let_def parseRepoUrl_def regex_test_def
           split: option.splits)

text \<open>
  The handler answers \<open>202\<close> exactly when the three fields are non-empty strings and
  the expression of \<^verbatim>\<open>parseRepoUrl\<close> matches somewhere in \<open>repoUrl\<close>; the two \<open>400\<close>
  answers have different bodies.
\<close>

lemma handler_accepts_iff:
  "http_status (run_agent_handler runId req) = 202
     \<longleftrightarrow> valid_fields req \<and> contains_repo_path (string_of (repoUrl req))"
  unfolding handler_cases regex_test_repo_url by simp

lemma handler_rejects_malformed:
  assumes "valid_fields req" "\<not> contains_repo_path (string_of (repoUrl req))"
  shows "run_agent_handler runId req = \<lparr> http_status = 400, body = InvalidRepositoryUrl \<rparr>"
  using assms unfolding handler_cases regex_test_repo_url by simp

lemma handler_rejects_missing_field:
  assumes "\<not> valid_fields req"
  shows "\<exists>msgs. msgs \<noteq> [] \<and>
           run_agent_handler runId req = \<lparr> http_status = 400, body = ValidationError msgs \<rparr>"
proof -
  from assms have
     "(if \<not> is_nonempty_string (repoUrl req) then [''repoUrl is required''] else []) @
      (if \<not> is_nonempty_string (teamName req) then [''teamName is required''] else []) @
      (if \<not> is_nonempty_string (leaderName req) then [''leaderName is required''] else []) \<noteq> []"
    by (auto simp: valid_fields_def)
  with assms show ?thesis unfolding handler_cases by simp
qed

text \<open>
  C10: a request is accepted with \<open>202\<close> only when \<open>repoUrl\<close> has the form
  \<^verbatim>\<open>https://github.com/{owner}/{repo}[.git]\<close>, and every other URL is answered with the
  \<open>400\<close> of a malformed URL. The code does not do this. The handler checks the URL under
  the comment \<^verbatim>\<open>Validate GitHub URL format\<close> and rejects with the message
  \<^verbatim>\<open>URL must be a valid GitHub repository (https://github.com/owner/repo)\<close>, but the
  expression of \<^verbatim>\<open>parseRepoUrl\<close> has no anchor and names no scheme or host boundary. At
  the bodies with \<open>repoUrl\<close> \<^verbatim>\<open>http://evil.example/github.com/a/b\<close> and
  \<^verbatim>\<open>https://evil.example/github.com/a/b\<close>, neither of the required form, the answer is
  \<open>202\<close> and not the \<open>400\<close> of a malformed URL; \<^verbatim>\<open>parseRepoUrl\<close> returns the owner \<open>a\<close>
  and the repository \<open>b\<close> of a host that is not GitHub; and for the second URL
  \<^verbatim>\<open>cloneRepo\<close> then sends the GitHub token of the server to that host.
\<close>

theorem C10_foreign_host_accepted:
  "run_agent_handler ''id''
       \<lparr> repoUrl = JString ''http://evil.example/github.com/a/b'',
         teamName = JString ''t'', leaderName = JString ''l'' \<rparr>
     = \<lparr> http_status = 202, body = Running ''id'' ''T_L_AI_Fix'' \<rparr>
   \<and> run_agent_handler ''id''
       \<lparr> repoUrl = JString ''https://evil.example/github.com/a/b'',
         teamName = JString ''t'', leaderName = JString ''l'' \<rparr>
     = \<lparr> http_status = 202, body = Running ''id'' ''T_L_AI_Fix'' \<rparr>
   \<and> \<not> spec_repo_url_form ''http://evil.example/github.com/a/b''
   \<and> \<not> spec_repo_url_form ''https://evil.example/github.com/a/b''
   \<and> parseRepoUrl ''https://evil.example/github.com/a/b'' = Inr (''a'', ''b'')
   \<and> clone_url (Some ''TOKEN'') ''https://evil.example/github.com/a/b''
       = ''https://TOKEN@evil.example/github.com/a/b''"
  by code_simp

section \<open>Patch applier: results\<close>

lemma split_on_not_Nil: "split_on d s \<noteq> []"
  by (induction s) (auto split: list.splits)

lemma join_split: "join_with [d] (split_on d s) = s"
proof (induction s)
  case Nil
  then show ?case by simp
next
  case (Cons c cs)
  obtain l ls where sp: "split_on d cs = l # ls"
    using split_on_not_Nil[of d cs] by (cases "split_on d cs") auto
  show ?case
  proof (cases "c = d")
    case True
    with sp Cons show ?thesis by simp
  next
    case False
    with sp Cons show ?thesis by (cases ls) auto
  qed
qed

text \<open>
  The line-based fallback of \<open>applyFix\<close>, for a complete proposal whose file is a
  regular file that does not contain \<open>originalCode\<close>.
\<close>

lemma applyFix_line_fallback:
  assumes "file f = Some p" "p \<noteq> []" "originalCode f \<noteq> []" "fixedCode f \<noteq> []"
      and "t p = Some (File content)" "\<not> includes_str content (originalCode f)"
  shows "applyFix f t =
     (case lineNumber f of
        None \<Rightarrow> (mark f Failed (Some ''Original code not found''), t)
      | Some Infinity \<Rightarrow> (mark f Failed (Some ''Original code not found''), t)
      | Some (Finite n) \<Rightarrow>
          if 1 \<le> n \<and> n \<le> int (length (split_on (CHR 0x0A) content)) then
            (mark f Fixed None,
             t(p \<mapsto> File (join_with [CHR 0x0A]
                              ((split_on (CHR 0x0A) content)[nat (n - 1) := fixedCode f]))))
          else if n < 0 then (mark f Fixed None, t(p \<mapsto> File content))
          else (mark f Failed (Some ''Original code not found''), t))"
proof (cases "lineNumber f")
  case None
  with assms show ?thesis by (simp add: applyFix_def falsy_text_def)
next
  case (Some v)
  show ?thesis
  proof (cases v)
    case Infinity
    with Some assms show ?thesis by (simp add: applyFix_def falsy_text_def Let_def)
  next
    case (Finite n)
    note Some = Some[unfolded Finite]
  consider "1 \<le> n \<and> n \<le> int (length (split_on (CHR 0x0A) content))" | "n < 0"
    | "n = 0" | "n > int (length (split_on (CHR 0x0A) content))"
    by linarith
  then show ?thesis
  proof cases
    case 1
    then have "nat (n - 1) < length (split_on (CHR 0x0A) content)" by linarith
    with 1 Some assms show ?thesis
      by (simp add: applyFix_def falsy_text_def Let_def assign_index_def)
  next
    case 2
    with Some assms show ?thesis
      by (simp add: applyFix_def falsy_text_def Let_def assign_index_def join_split)
  next
    case 3
    with Some assms show ?thesis
      by (simp add: applyFix_def falsy_text_def Let_def)
  next
    case 4
    with Some assms show ?thesis
      by (simp add: applyFix_def falsy_text_def Let_def)
  qed
  qed
qed

text \<open>
  C5: for a proposal whose \<open>originalCode\<close> is not in the file, a line that is present
  and within the bounds of the file is overwritten and the proposal is marked \<open>Fixed\<close>;
  otherwise it is marked \<open>Failed\<close> with the reason \<^verbatim>\<open>Original code not found\<close>.
  The source tests \<^verbatim>\<open>fix.lineNumber && fix.lineNumber <= lines.length\<close>, with no lower
  bound: for the line \<open>-1\<close>, which is outside the one-line file below, the proposal
  is marked \<open>Fixed\<close> and the file is written back unchanged.
\<close>

theorem C5_negative_line_marked_fixed:
  "applyFix \<lparr> file = Some ''a.py'', lineNumber = Some (Finite (- 1)), bugType = SYNTAX,
              description = ''d'', originalCode = ''zzz'', fixedCode = ''y'',
              commitMessage = ''m'' \<rparr>
            [''a.py'' \<mapsto> File ''x'']
   = (\<lparr> file = Some ''a.py'', lineNumber = Some (Finite (- 1)), bugType = SYNTAX,
         description = ''d'', originalCode = ''zzz'', fixedCode = ''y'',
         commitMessage = ''m'', status = Fixed, reason = None \<rparr>,
      [''a.py'' \<mapsto> File ''x''])
   \<and> \<not> includes_str ''x'' ''zzz''
   \<and> length (split_on (CHR 0x0A) ''x'') = 1"
  by (simp add: applyFix_def falsy_text_def Let_def assign_index_def mark_def)

section \<open>Sandbox executor: results\<close>

lemma container_timeout:
  "runInDockerContainer d = Inr r \<Longrightarrow> container d = TimesOut \<Longrightarrow>
     exitCode r = 124 \<and> stderr r = TIMEOUT_MARKER"
  by (auto simp: runInDockerContainer_def truncate_output_def TIMEOUT_MARKER_def MAX_OUTPUT_def
           split: image_state.splits option.splits)

text \<open>
  C6: a command that exceeds the timeout yields the exit code \<open>124\<close> and the
  \<^verbatim>\<open>TIMEOUT\<close> marker as \<open>stderr\<close> in both modes. The container mode does
  (\<open>container_timeout\<close>, and the last conjunct below); the native fallback returns the
  exit code \<open>1\<close> and the child's own \<open>stderr\<close>.
\<close>

theorem C6_native_timeout_not_124:
  "exitCode (runNative (exec_timed_out out err)) = 1
   \<and> stderr (runNative (exec_timed_out out err)) = slice_last MAX_OUTPUT err
   \<and> runInDocker (Native (exec_timed_out '''' ''''))
       = Inr \<lparr> exitCode = 1, stdout = '''', stderr = '''' \<rparr>
   \<and> runInDocker (Container \<lparr> image_state = ImageLocal, create_error = None,
                                container = TimesOut \<rparr>)
       = Inr \<lparr> exitCode = 124, stdout = '''', stderr = TIMEOUT_MARKER \<rparr>"
  by (simp add: runNative_def exec_timed_out_def slice_last_def runInDockerContainer_def
        truncate_output_def TIMEOUT_MARKER_def MAX_OUTPUT_def)

section \<open>Orchestrator: lemmas\<close>

lemma iteration_body_effect:
  "iteration_body w s = (fl, s') \<Longrightarrow>
     iteration s' = iteration s \<and> bodiesRun s' = Suc (bodiesRun s)
     \<and> repoDir s' = repoDir s \<and> tmp_exists s' = tmp_exists s
     \<and> (case fl of
          Continue \<Rightarrow> timeline s' = timeline s @ [(iteration s, FAILED)]
        | Throw msg \<Rightarrow> timeline s' = timeline s
        | Break \<Rightarrow>
            timeline s' = timeline s @ [(iteration s, FAILED), (iteration s, CI_PASSED)]
            \<or> timeline s' = timeline s @ [(iteration s, NO_FIXES)]
            \<or> timeline s' = timeline s @ [(iteration s, APPLY_FAILED)]
            \<or> timeline s' = timeline s @ [(iteration s, PASSED)])"
  by (auto simp: iteration_body_def Let_def addTimeline_def broadcast_def
           split: sum.splits prod.splits if_splits bool.splits)


lemma count_status_append [simp]:
  "count_status st (xs @ ys) = count_status st xs + count_status st ys"
  by (simp add: count_status_def)

lemma count_status_Nil [simp]: "count_status st [] = 0"
  by (simp add: count_status_def)

lemma count_status_Cons [simp]:
  "count_status st ((i, st') # xs) = (if st' = st then 1 else 0) + count_status st xs"
  by (simp add: count_status_def)

lemma fixLoop_effect:
  "fixLoop w L i s = (exc, s') \<Longrightarrow>
     length (timeline s') + (if exc = None then 0 else 1) + count_status CI_PASSED (timeline s)
       \<le> length (timeline s) + nat (L + 1 - int i) + count_status CI_PASSED (timeline s')
     \<and> count_status CI_PASSED (timeline s') \<le> count_status CI_PASSED (timeline s) + 1
     \<and> length (timeline s') + (if exc = None then 0 else 1) + bodiesRun s
           + count_status CI_PASSED (timeline s)
         = length (timeline s) + bodiesRun s' + count_status CI_PASSED (timeline s')
     \<and> repoDir s' = repoDir s \<and> tmp_exists s' = tmp_exists s"
proof (induction w L i s arbitrary: exc s' rule: fixLoop.induct)
  case (1 w L i s)
  show ?case
  proof (cases "int i \<le> L")
    case False
    with "1.prems" have "exc = None" "s' = s\<lparr>iteration := i\<rparr>"
      by (simp_all add: fixLoop.simps[of w L i s])
    then show ?thesis by simp
  next
    case True
    obtain fl s1 where b: "iteration_body w (s\<lparr>iteration := i\<rparr>) = (fl, s1)"
      by (cases "iteration_body w (s\<lparr>iteration := i\<rparr>)")
    note eff = iteration_body_effect[OF b]
    show ?thesis
    proof (cases fl)
      case Continue
      with True b "1.prems" have rec: "fixLoop w L (Suc i) s1 = (exc, s')"
        by (simp add: fixLoop.simps[of w L i s])
      have ih: "length (timeline s') + (if exc = None then 0 else 1)
                  + count_status CI_PASSED (timeline s1)
                \<le> length (timeline s1) + nat (L + 1 - int (Suc i))
                  + count_status CI_PASSED (timeline s')
              \<and> count_status CI_PASSED (timeline s') \<le> count_status CI_PASSED (timeline s1) + 1
              \<and> length (timeline s') + (if exc = None then 0 else 1) + bodiesRun s1
                    + count_status CI_PASSED (timeline s1)
                  = length (timeline s1) + bodiesRun s' + count_status CI_PASSED (timeline s')
              \<and> repoDir s' = repoDir s1 \<and> tmp_exists s' = tmp_exists s1"
        using "1.IH"[OF True b[symmetric] Continue rec] .
      have step: "nat (L + 1 - int i) = Suc (nat (L + 1 - int (Suc i)))"
        using True by simp
      from eff Continue have t1: "timeline s1 = timeline s @ [(i, FAILED)]"
        and b1: "bodiesRun s1 = Suc (bodiesRun s)"
        and r1: "repoDir s1 = repoDir s" "tmp_exists s1 = tmp_exists s"
        by simp_all
      from ih show ?thesis unfolding step t1 b1 r1 by simp
    next
      case Break
      with True b "1.prems" have res: "exc = None" "s' = s1"
        by (simp_all add: fixLoop.simps[of w L i s])
      have pos: "1 \<le> nat (L + 1 - int i)" using True by simp
      from eff Break res pos show ?thesis by auto
    next
      case (Throw msg)
      with True b "1.prems" have res: "exc = Some msg" "s' = s1"
        by (simp_all add: fixLoop.simps[of w L i s])
      have pos: "1 \<le> nat (L + 1 - int i)" using True by simp
      from eff Throw res pos show ?thesis by auto
    qed
  qed
qed


lemma analyze_effect:
  "analyze w s = (r, s1) \<Longrightarrow> timeline s1 = timeline s \<and> bodiesRun s1 = bodiesRun s"
  by (auto simp: analyze_def cloneRepo_def Let_def split: sum.splits if_splits prod.splits)

lemma run_try_effect:
  assumes "run_try w L s = (exc, s')" and "timeline s = []" and "bodiesRun s = 0"
  shows "length (timeline s') + (if exc = None then 0 else 1)
           \<le> 1 + nat L + count_status CI_PASSED (timeline s')
         \<and> count_status CI_PASSED (timeline s') \<le> 1
         \<and> length (timeline s') + (if exc = None then 0 else 1)
             = 1 + bodiesRun s' + count_status CI_PASSED (timeline s')"
proof -
  obtain r s1 where a: "analyze w s = (r, s1)" by (cases "analyze w s")
  from analyze_effect[OF a] assms(2,3) have s1: "timeline s1 = []" "bodiesRun s1 = 0"
    by simp_all
  show ?thesis
  proof (cases r)
    case (Inl msg)
    with a assms(1) have "exc = Some msg" "s' = s1" by (simp_all add: run_try_def)
    with s1 show ?thesis by simp
  next
    case (Inr dr)
    obtain dir res where dr: "dr = (dir, res)" by (cases dr)
    show ?thesis
    proof (cases "passed res")
      case True
      with a Inr dr assms(1)
      have "exc = None" "timeline s' = timeline s1 @ [(0, PASSED)]" "bodiesRun s' = bodiesRun s1"
        by (auto simp: run_try_def Let_def addTimeline_def)
      with s1 show ?thesis by simp
    next
      case False
      let ?s2 = "(addTimeline 0 FAILED (s1\<lparr>repoDir := Some dir\<rparr>))
                   \<lparr>currentOutput := output res,
                    totalFailures := totalFailures (addTimeline 0 FAILED (s1\<lparr>repoDir := Some dir\<rparr>)) + 1\<rparr>"
      from a Inr dr assms(1) False have loop: "fixLoop w L 1 ?s2 = (exc, s')"
        by (simp add: run_try_def Let_def)
      have t2: "timeline ?s2 = [(0, FAILED)]" "bodiesRun ?s2 = 0"
        using s1 by (simp_all add: addTimeline_def)
      from fixLoop_effect[OF loop] show ?thesis unfolding t2 by simp
    qed
  qed
qed

lemma final_run:
  "parseRepoUrl url = Inr x \<Longrightarrow> run_try w L (broadcast ''pipeline_start'' initial) = (exc, s) \<Longrightarrow>
     timeline (final (run w L (url, team, leader)))
       = (case exc of None \<Rightarrow> timeline s | Some msg \<Rightarrow> timeline s @ [(iteration s, ERROR)])
     \<and> bodiesRun (final (run w L (url, team, leader))) = bodiesRun s
     \<and> (report (run w L (url, team, leader)) = None
          \<or> map_option rep_timeline (report (run w L (url, team, leader)))
              = Some (timeline (final (run w L (url, team, leader)))))"
  by (cases exc)
     (simp_all add: run_def Let_def cleanup_def broadcast_def addTimeline_def buildResults_def
        split: option.splits)

lemma run_rejected_early:
  "parseRepoUrl url = Inl msg \<Longrightarrow>
     timeline (final (run w L (url, team, leader))) = []
     \<and> bodiesRun (final (run w L (url, team, leader))) = 0
     \<and> report (run w L (url, team, leader)) = None"
  by (simp add: run_def Let_def broadcast_def initial_def)

lemma run_effect:
  "length (timeline (final (run w L request)))
     \<le> nat L + 1 + count_status CI_PASSED (timeline (final (run w L request)))
   \<and> count_status CI_PASSED (timeline (final (run w L request))) \<le> 1
   \<and> (report (run w L request) = None
        \<or> map_option rep_timeline (report (run w L request))
            = Some (timeline (final (run w L request)))
          \<and> length (timeline (final (run w L request)))
            = 1 + bodiesRun (final (run w L request))
              + count_status CI_PASSED (timeline (final (run w L request))))"
proof -
  obtain url team leader where req: "request = (url, team, leader)" by (cases request)
  show ?thesis
  proof (cases "parseRepoUrl url")
    case (Inl msg)
    from run_rejected_early[OF Inl, of w L team leader] show ?thesis
      unfolding req by simp
  next
    case (Inr x)
    obtain exc s where t: "run_try w L (broadcast ''pipeline_start'' initial) = (exc, s)"
      by (cases "run_try w L (broadcast ''pipeline_start'' initial)")
    have init: "timeline (broadcast ''pipeline_start'' initial) = []"
         "bodiesRun (broadcast ''pipeline_start'' initial) = 0"
      by (simp_all add: broadcast_def initial_def)
    note eff = run_try_effect[OF t init]
    note fin = final_run[OF Inr t, of team leader]
    show ?thesis
    proof (cases exc)
      case None
      with eff fin show ?thesis unfolding req by auto
    next
      case (Some msg)
      with eff fin show ?thesis unfolding req by auto
    qed
  qed
qed


lemma runTests_failing_tests:
  "runTests failing_tests = Inr \<lparr> passed = False, output = ''SyntaxError'' \<rparr>"
  by (simp add: runTests_def failing_tests_def runNative_def slice_last_def trim_def
        isWhiteSpace_def MAX_OUTPUT_def)

lemma parse_SyntaxError:
  "parseErrorLog ''SyntaxError'' =
     [\<lparr> file = None, lineNumber = None, bugType = SYNTAX, rawMessage = ''SyntaxError'' \<rparr>]"
  by code_simp

lemma no_context_read_SyntaxError:
  "\<not> list_ex (context_read_throws t) (parseErrorLog ''SyntaxError'')"
  by (simp add: parse_SyntaxError context_read_throws_def)

lemma invoke_responds: "invokeWithFallback (\<lambda>m a. Responds r) = Inr r"
  by (simp add: invokeWithFallback_def)

lemma json_array_example:
  "regex_exec False re_json_array (trim example_json)
     = Some \<lparr> before = [], matched = example_json, after = [], groups = [] \<rparr>"
  by code_simp

lemma json_array_none: "regex_exec False re_json_array (trim ''I cannot help'') = None"
  by code_simp

lemma generateFixes_example:
  "generateFixes (\<lambda>m a. Responds example_json) example_json_parse t ''SyntaxError''
     = Inr [example_fix]"
  by (simp add: generateFixes_def no_context_read_SyntaxError invoke_responds
        json_array_example example_json_parse_def)

lemma generateFixes_no_json:
  "generateFixes (\<lambda>m a. Responds ''I cannot help'') jp t ''SyntaxError'' = Inr []"
  by (simp add: generateFixes_def no_context_read_SyntaxError invoke_responds json_array_none)

lemma applyFixes_example:
  "applyFixes [example_fix] [''a.py'' \<mapsto> File ''def f()'']
     = ([mark example_fix Fixed None], [''a.py'' \<mapsto> File ''def f():''])"
  by (simp add: applyFix_def example_fix_def falsy_text_def replace_str_def Let_def)

lemma count_fixed_example: "count_fixed [mark example_fix Fixed None] = 1"
  by (simp add: count_fixed_def mark_def)

lemma parseRepoUrl_example: "parseRepoUrl ''https://github.com/a/b'' = Inr (''a'', ''b'')"
  by code_simp

lemma analyze_ok:
  "clone_shallow_ok w \<Longrightarrow> runTests (sandbox_at w 0) = Inr res \<Longrightarrow>
     analyze w s = (Inr (tmpDir, res), s\<lparr>tmp_exists := True, work_tree := repo_tree w\<rparr>)"
  by (simp add: analyze_def cloneRepo_def Let_def)

lemma iteration_body_ci_passed:
  assumes "generateFixes (llm_at w (iteration s)) (json_parse w) (work_tree s) (currentOutput s)
             = Inr fixes"
      and "fixes \<noteq> []"
      and "applyFixes fixes (work_tree s) = (applied, t')"
      and "count_fixed applied \<noteq> 0"
      and "commit_at w (iteration s) = Inr c"
      and "runTests (sandbox_at w (iteration s)) = Inr r"
      and "\<not> passed r"
      and "ci_at w (iteration s) = Inr True"
  shows "\<exists>s'. iteration_body w s = (Break, s')
           \<and> timeline s' = timeline s @ [(iteration s, FAILED), (iteration s, CI_PASSED)]
           \<and> finalStatus s' = PASSED"
  using assms by (simp add: iteration_body_def Let_def broadcast_def addTimeline_def)

lemma iteration_body_no_fixes:
  assumes "generateFixes (llm_at w (iteration s)) (json_parse w) (work_tree s) (currentOutput s)
             = Inr []"
  shows "\<exists>s'. iteration_body w s = (Break, s')
           \<and> timeline s' = timeline s @ [(iteration s, NO_FIXES)]
           \<and> finalStatus s' = finalStatus s"
  using assms by (simp add: iteration_body_def Let_def broadcast_def addTimeline_def)

lemma run_try_loop:
  assumes "clone_shallow_ok w" and "runTests (sandbox_at w 0) = Inr res" and "\<not> passed res"
      and "1 \<le> L"
  shows "\<exists>s1. run_try w L s = (case iteration_body w s1 of
                                    (Continue, s') \<Rightarrow> fixLoop w L (Suc (Suc 0)) s'
                                  | (Break, s') \<Rightarrow> (None, s')
                                  | (Throw msg, s') \<Rightarrow> (Some msg, s'))
           \<and> timeline s1 = timeline s @ [(0, FAILED)] \<and> iteration s1 = 1
           \<and> work_tree s1 = repo_tree w \<and> currentOutput s1 = output res
           \<and> bodiesRun s1 = bodiesRun s \<and> repoDir s1 = Some tmpDir \<and> tmp_exists s1"
proof -
  let ?s1 = "s\<lparr>tmp_exists := True, work_tree := repo_tree w, repoDir := Some tmpDir,
               timeline := timeline s @ [(0, FAILED)], currentOutput := output res,
               totalFailures := Suc (totalFailures s), iteration := Suc 0\<rparr>"
  show ?thesis
    using assms
    by (intro exI[of _ ?s1])
       (simp add: run_try_def analyze_ok Let_def addTimeline_def fixLoop.simps[of w L "Suc 0"])
qed

lemma run_ci_passes:
  assumes "1 \<le> L"
  shows "timeline (final (run world_ci_passes L example_request))
           = [(0, FAILED), (1, FAILED), (1, CI_PASSED)]
         \<and> bodiesRun (final (run world_ci_passes L example_request)) = 1"
proof -
  let ?w = world_ci_passes
  let ?s0 = "broadcast ''pipeline_start'' initial"
  have w: "clone_shallow_ok ?w" "sandbox_at ?w = (\<lambda>i. failing_tests)"
      "llm_at ?w = (\<lambda>i m a. Responds example_json)" "json_parse ?w = example_json_parse"
      "commit_at ?w = (\<lambda>i. Inr 1)" "ci_at ?w = (\<lambda>i. Inr True)"
      "repo_tree ?w = [''a.py'' \<mapsto> File ''def f()'']"
    by (simp_all add: world_ci_passes_def)
  have t0: "runTests (sandbox_at ?w 0) = Inr \<lparr> passed = False, output = ''SyntaxError'' \<rparr>"
    by (simp add: w runTests_failing_tests)
  from run_try_loop[OF w(1) t0 _ assms, of ?s0]
  obtain s1 where
    rt: "run_try ?w L ?s0 = (case iteration_body ?w s1 of
                               (Continue, s') \<Rightarrow> fixLoop ?w L (Suc (Suc 0)) s'
                             | (Break, s') \<Rightarrow> (None, s')
                             | (Throw msg, s') \<Rightarrow> (Some msg, s'))"
    and s1: "timeline s1 = timeline ?s0 @ [(0, FAILED)]" "iteration s1 = 1"
       "work_tree s1 = repo_tree ?w" "currentOutput s1 = ''SyntaxError''"
       "bodiesRun s1 = bodiesRun ?s0"
    by auto
  have g: "generateFixes (llm_at ?w (iteration s1)) (json_parse ?w) (work_tree s1)
             (currentOutput s1) = Inr [example_fix]"
    by (simp only: w s1 generateFixes_example)
  have a: "applyFixes [example_fix] (work_tree s1)
             = ([mark example_fix Fixed None], [''a.py'' \<mapsto> File ''def f():''])"
    by (simp only: w s1 applyFixes_example)
  from iteration_body_ci_passed[OF g _ a, of 1 "\<lparr> passed = False, output = ''SyntaxError'' \<rparr>"]
  obtain s2 where b: "iteration_body ?w s1 = (Break, s2)"
    and s2: "timeline s2 = timeline s1 @ [(iteration s1, FAILED), (iteration s1, CI_PASSED)]"
    by (auto simp: count_fixed_example w runTests_failing_tests)
  from iteration_body_effect[OF b] have b2: "bodiesRun s2 = Suc (bodiesRun s1)" by simp
  from rt b have rt2: "run_try ?w L ?s0 = (None, s2)" by simp
  have init: "timeline ?s0 = []" "bodiesRun ?s0 = 0"
    by (simp_all add: broadcast_def initial_def)
  from final_run[OF parseRepoUrl_example rt2, of "''t''" "''l''"]
  show ?thesis
    unfolding example_request_def by (simp add: s2 s1 b2 init)
qed

lemma report_run:
  assumes "parseRepoUrl url = Inr x" and "save_ok w"
  shows "\<exists>rep. report (run w L (url, team, leader)) = Some rep
           \<and> rejected (run w L (url, team, leader)) = None
           \<and> rep_scoreBreakdown rep
               = computeScore (elapsed_ms w) (int (rep_totalCommits rep)) (int (rep_totalFixes rep))
                   (iterationCount (final (run w L (url, team, leader))))
           \<and> rep_timeline rep = timeline (final (run w L (url, team, leader)))
           \<and> last (events (final (run w L (url, team, leader)))) = ''pipeline_done''"
  using assms
  by (simp add: run_def Let_def buildResults_def iterationCount_def cleanup_def broadcast_def
        split: option.splits prod.splits)

lemma run_analysis_throws:
  assumes "parseRepoUrl url = Inr x" and "save_ok w"
      and "analyze w (broadcast ''pipeline_start'' initial) = (Inl msg, s1)"
  shows "final (run w L (url, team, leader))
           = broadcast ''pipeline_done'' (addTimeline 0 ERROR s1)
         \<and> repoDir s1 = None"
proof -
  from assms(3) have r: "repoDir s1 = None" "iteration s1 = 0"
    by (auto simp: analyze_def cloneRepo_def Let_def broadcast_def initial_def
             split: sum.splits if_splits)
  from assms r show ?thesis
    by (simp add: run_def run_try_def Let_def cleanup_def broadcast_def addTimeline_def)
qed

section \<open>Degraded mode of the fix generator: results\<close>

lemma star_contains_start: "st \<in> set (star f n st)"
  by (cases n) simp_all

lemma star_Atom_reaches:
  "\<forall>x \<in> set m. cmatch ci k x \<Longrightarrow> length (m @ r) \<le> n \<Longrightarrow>
     (r, caps) \<in> set (star (rmatch ci (Atom k)) n (m @ r, caps))"
proof (induction m arbitrary: n)
  case Nil
  then show ?case by (simp add: star_contains_start)
next
  case (Cons x xs)
  from Cons.prems(2) obtain n' where n: "n = Suc n'" and len: "length (xs @ r) \<le> n'"
    by (cases n) auto
  from Cons.prems(1) have "\<forall>x \<in> set xs. cmatch ci k x" and x: "cmatch ci k x" by simp_all
  from Cons.IH[OF this(1) len] x n show ?case by simp
qed

lemma json_array_sound:
  assumes "rmatch False re_json_array (s, []) \<noteq> []"
  shows "\<exists>b c. s = ''['' @ b @ '']'' @ c"
proof -
  from assms obtain st where "st \<in> set (rmatch False re_json_array (s, []))"
    by (cases "rmatch False re_json_array (s, [])") auto
  then obtain y1 y2 where
        1: "y1 \<in> set (rmatch False (Str ''['') (s, []))"
    and 2: "y2 \<in> set (star (rmatch False (Atom AnyChar)) (length (fst y1)) y1)"
    and 3: "st \<in> set (rmatch False (Str '']'') y2)"
    unfolding re_json_array_def by (auto simp del: rmatch.simps(1,2) simp add: rmatch.simps(3,6))
  from 1 have s1: "s = ''['' @ fst y1" by (simp add: in_rmatch_Str del: rmatch.simps)
  from in_star_Atom[of y2 False AnyChar "length (fst y1)" "fst y1" "snd y1"] 2
  obtain b where b: "fst y1 = b @ fst y2" by auto
  from 3 have s3: "fst y2 = '']'' @ fst st" by (simp add: in_rmatch_Str del: rmatch.simps)
  from s1 b s3 have "s = ''['' @ b @ '']'' @ fst st" by simp
  then show ?thesis by blast
qed

lemma json_array_complete:
  "rmatch False re_json_array (''['' @ b @ '']'' @ c, []) \<noteq> []"
proof -
  have 1: "(b @ '']'' @ c, []) \<in> set (rmatch False (Str ''['') (''['' @ b @ '']'' @ c, []))"
    by (simp add: in_rmatch_Str del: rmatch.simps)
  have 2: "('']'' @ c, []) \<in> set (rmatch False (Star (Atom AnyChar)) (b @ '']'' @ c, []))"
    using star_Atom_reaches[of b False AnyChar "'']'' @ c" "length (b @ '']'' @ c)" "[]"]
    by (simp del: rmatch.simps(1) star.simps)
  have 3: "rmatch False (Str '']'') ('']'' @ c, []) \<noteq> []"
    by simp
  have r1: "rmatch False (Seq (Star (Atom AnyChar)) (Str '']'')) (b @ '']'' @ c, []) \<noteq> []"
    using 2 3 by (fastforce simp del: rmatch.simps(1,2,6) simp add: rmatch.simps(3))
  show ?thesis
    unfolding re_json_array_def using 1 r1
    by (fastforce simp del: rmatch.simps(1,2,6) append.simps simp add: rmatch.simps(3))
qed

lemma json_array_None: "regex_exec False re_json_array s = None \<longleftrightarrow> \<not> has_bracket_pair s"
proof -
  have "regex_exec False re_json_array s \<noteq> None \<longleftrightarrow> has_bracket_pair s"
  proof
    assume "regex_exec False re_json_array s \<noteq> None"
    then obtain pre suf where u: "s = pre @ suf"
      and m: "rmatch False re_json_array (suf, []) \<noteq> []"
      unfolding regex_exec_def regex_exec_from_Some by blast
    from json_array_sound[OF m] u show "has_bracket_pair s"
      unfolding has_bracket_pair_def by blast
  next
    assume "has_bracket_pair s"
    then obtain a b c where "s = a @ ''['' @ b @ '']'' @ c"
      unfolding has_bracket_pair_def by blast
    with json_array_complete[of b c] show "regex_exec False re_json_array s \<noteq> None"
      unfolding regex_exec_def regex_exec_from_Some by blast
  qed
  then show ?thesis by blast
qed

lemma no_json_array_plain:
  "no_json_array llm \<longleftrightarrow>
     (\<exists>content. invokeWithFallback llm = Inr content \<and> \<not> has_bracket_pair (trim content))"
  by (auto simp: no_json_array_def json_array_None split: sum.splits)


lemma applyFix_placeholder: "applyFix (placeholder e) t = (mark (placeholder e) Skipped None, t)"
  by (simp add: applyFix_def placeholder_def)

lemma applyFixes_placeholders:
  "applyFixes (map placeholder es) t = (map (\<lambda>e. mark (placeholder e) Skipped None) es, t)"
  by (induction es) (simp_all add: applyFix_placeholder)

lemma count_fixed_placeholders:
  "count_fixed (map (\<lambda>e. mark (placeholder e) Skipped None) es) = 0"
  by (simp add: count_fixed_def mark_def)

lemma generateFixes_catch:
  "\<not> list_ex (context_read_throws t) (parseErrorLog out) \<Longrightarrow> catch_runs llm jp \<Longrightarrow>
     generateFixes llm jp t out = Inr (map placeholder (parseErrorLog out))"
  by (auto simp: generateFixes_def catch_runs_def Let_def split: sum.splits option.splits)

lemma generateFixes_no_array:
  "\<not> list_ex (context_read_throws t) (parseErrorLog out) \<Longrightarrow> no_json_array llm \<Longrightarrow>
     generateFixes llm jp t out = Inr []"
  by (auto simp: generateFixes_def no_json_array_def Let_def split: sum.splits option.splits)

lemma attempts_rate_limited:
  assumes "\<forall>a. \<exists>msg. invoke a = Rejects msg \<and> is429 msg"
  shows "attempts_loop invoke [1, 2, 3] = NextModel"
proof -
  from assms obtain m1 m2 m3 where
    "invoke 1 = Rejects m1" "is429 m1" "invoke 2 = Rejects m2" "is429 m2"
    "invoke 3 = Rejects m3" "is429 m3"
    by metis
  then show ?thesis by simp
qed

lemma all_models_exhausted:
  assumes "\<forall>m a. \<exists>msg. llm m a = Rejects msg \<and> is429 msg"
  shows "invokeWithFallback llm = Inl ''All Gemini models exhausted''"
proof -
  have "attempts_loop (llm m) [1, 2, 3] = NextModel" for m
    using assms by (intro attempts_rate_limited) simp
  then show ?thesis by (simp add: invokeWithFallback_def)
qed

lemma iteration_body_placeholders:
  assumes "generateFixes (llm_at w (iteration s)) (json_parse w) (work_tree s) (currentOutput s)
             = Inr (map placeholder es)"
  shows "\<exists>s'. iteration_body w s = (Break, s')
           \<and> timeline s' = timeline s @ [(iteration s, if es = [] then NO_FIXES else APPLY_FAILED)]
           \<and> finalStatus s' = finalStatus s"
  using assms
  by (simp add: iteration_body_def Let_def broadcast_def addTimeline_def
        applyFixes_placeholders count_fixed_placeholders)

lemma is429_example: "is429 ''429 Too Many Requests''"
  by (simp add: is429_def)

lemma no_json_example: "no_json_array (\<lambda>m a. Responds ''I cannot help'')"
  by (simp add: no_json_array_def invoke_responds json_array_none)

lemma run_no_json:
  "timeline (final (run world_no_json 5 example_request)) = [(0, FAILED), (1, NO_FIXES)]"
proof -
  let ?w = world_no_json
  let ?s0 = "broadcast ''pipeline_start'' initial"
  have w: "clone_shallow_ok ?w" "sandbox_at ?w = (\<lambda>i. failing_tests)"
      "llm_at ?w = (\<lambda>i m a. Responds ''I cannot help'')"
    by (simp_all add: world_no_json_def world_ci_passes_def)
  have t0: "runTests (sandbox_at ?w 0) = Inr \<lparr> passed = False, output = ''SyntaxError'' \<rparr>"
    by (simp add: w runTests_failing_tests)
  from run_try_loop[OF w(1) t0, of 5 ?s0]
  obtain s1 where
    rt: "run_try ?w 5 ?s0 = (case iteration_body ?w s1 of
                               (Continue, s') \<Rightarrow> fixLoop ?w 5 (Suc (Suc 0)) s'
                             | (Break, s') \<Rightarrow> (None, s')
                             | (Throw msg, s') \<Rightarrow> (Some msg, s'))"
    and s1: "timeline s1 = timeline ?s0 @ [(0, FAILED)]" "iteration s1 = 1"
       "currentOutput s1 = ''SyntaxError''"
    by auto
  have g: "generateFixes (llm_at ?w (iteration s1)) (json_parse ?w) (work_tree s1)
             (currentOutput s1) = Inr []"
    by (simp only: w s1 generateFixes_no_json)
  from iteration_body_no_fixes[OF g]
  obtain s2 where b: "iteration_body ?w s1 = (Break, s2)"
    and s2: "timeline s2 = timeline s1 @ [(iteration s1, NO_FIXES)]"
    by auto
  from rt b have rt2: "run_try ?w 5 ?s0 = (None, s2)" by simp
  have init: "timeline ?s0 = []" by (simp add: broadcast_def initial_def)
  from final_run[OF parseRepoUrl_example rt2, of "''t''" "''l''"]
  show ?thesis
    unfolding example_request_def by (simp add: s2 s1 init)
qed

text \<open>
  C1 (as stated): when the answer of the model contains no JSON array, the fix generator
  emits one placeholder per classified error and the timeline records \<open>APPLY_FAILED\<close>.
  In the source this case is the \<^verbatim>\<open>else\<close> branch \<^verbatim>\<open>fixes = []\<close>: with one classified
  error there is no proposal at all, and the run records \<open>NO_FIXES\<close>.
\<close>

theorem C1_no_json_counterexample:
  "no_json_array (llm_at world_no_json 1)
   \<and> length (parseErrorLog ''SyntaxError'') = 1
   \<and> generateFixes (llm_at world_no_json 1) (json_parse world_no_json) Map.empty ''SyntaxError''
       = Inr []
   \<and> timeline (final (run world_no_json 5 example_request)) = [(0, FAILED), (1, NO_FIXES)]"
  using run_no_json
  by (simp add: world_no_json_def no_json_example parse_SyntaxError generateFixes_no_json)

text \<open>
  C1 (amended): in an iteration whose source-context read does not throw,
  \<^item> if every call of every model is rejected with a rate-limit error, the \<^verbatim>\<open>catch\<close>
    block of \<^verbatim>\<open>generateFixes\<close> runs;
  \<^item> whenever that block runs (the invocation throws, or \<^verbatim>\<open>JSON.parse\<close> throws), the
    fix generator emits exactly one placeholder per classified error, each with empty
    \<open>originalCode\<close> and \<open>fixedCode\<close>; the patch applier marks every one of them
    \<open>Skipped\<close>; the loop ends and the timeline records \<open>APPLY_FAILED\<close> for the iteration
    if at least one error was classified, and \<open>NO_FIXES\<close> if none was; \<open>finalStatus\<close>
    is unchanged;
  \<^item> if the model answers without a JSON array (the trimmed answer has no opening
    bracket with a closing bracket after it), the fix generator emits no proposal, the
    loop ends and the timeline records \<open>NO_FIXES\<close> for the iteration.
\<close>

theorem C1_degraded_mode:
  assumes "\<not> list_ex (context_read_throws (work_tree s)) (parseErrorLog (currentOutput s))"
  shows
    "((\<forall>m a. \<exists>msg. llm_at w (iteration s) m a = Rejects msg \<and> is429 msg)
        \<longrightarrow> catch_runs (llm_at w (iteration s)) (json_parse w))
     \<and> (catch_runs (llm_at w (iteration s)) (json_parse w) \<longrightarrow>
          generateFixes (llm_at w (iteration s)) (json_parse w) (work_tree s) (currentOutput s)
            = Inr (map placeholder (parseErrorLog (currentOutput s)))
          \<and> (\<forall>f \<in> set (map placeholder (parseErrorLog (currentOutput s))).
                originalCode f = [] \<and> fixedCode f = [])
          \<and> length (fst (applyFixes (map placeholder (parseErrorLog (currentOutput s)))
                                     (work_tree s)))
              = length (parseErrorLog (currentOutput s))
          \<and> (\<forall>a \<in> set (fst (applyFixes (map placeholder (parseErrorLog (currentOutput s)))
                                         (work_tree s))).
                status a = Skipped)
          \<and> (\<exists>s'. iteration_body w s = (Break, s')
                \<and> timeline s' = timeline s @
                     [(iteration s,
                       if parseErrorLog (currentOutput s) = [] then NO_FIXES else APPLY_FAILED)]
                \<and> finalStatus s' = finalStatus s))
     \<and> (no_json_array (llm_at w (iteration s)) \<longrightarrow>
          generateFixes (llm_at w (iteration s)) (json_parse w) (work_tree s) (currentOutput s)
            = Inr []
          \<and> (\<exists>s'. iteration_body w s = (Break, s')
                \<and> timeline s' = timeline s @ [(iteration s, NO_FIXES)]
                \<and> finalStatus s' = finalStatus s))
     \<and> (no_json_array (llm_at w (iteration s)) \<longleftrightarrow>
          (\<exists>content. invokeWithFallback (llm_at w (iteration s)) = Inr content
                     \<and> \<not> has_bracket_pair (trim content)))"
proof (intro conjI impI)
  assume "\<forall>m a. \<exists>msg. llm_at w (iteration s) m a = Rejects msg \<and> is429 msg"
  from all_models_exhausted[OF this]
  show "catch_runs (llm_at w (iteration s)) (json_parse w)"
    by (simp add: catch_runs_def)
next
  assume c: "catch_runs (llm_at w (iteration s)) (json_parse w)"
  from generateFixes_catch[OF assms c]
  show g: "generateFixes (llm_at w (iteration s)) (json_parse w) (work_tree s) (currentOutput s)
            = Inr (map placeholder (parseErrorLog (currentOutput s)))" .
  show "\<forall>f \<in> set (map placeholder (parseErrorLog (currentOutput s))).
          originalCode f = [] \<and> fixedCode f = []"
    by (auto simp: placeholder_def)
  show "length (fst (applyFixes (map placeholder (parseErrorLog (currentOutput s))) (work_tree s)))
          = length (parseErrorLog (currentOutput s))"
    by (simp add: applyFixes_placeholders)
  show "\<forall>a \<in> set (fst (applyFixes (map placeholder (parseErrorLog (currentOutput s)))
                                   (work_tree s))).
          status a = Skipped"
    by (auto simp: applyFixes_placeholders mark_def)
  from iteration_body_placeholders[OF g]
  show "\<exists>s'. iteration_body w s = (Break, s')
          \<and> timeline s' = timeline s @
               [(iteration s,
                 if parseErrorLog (currentOutput s) = [] then NO_FIXES else APPLY_FAILED)]
          \<and> finalStatus s' = finalStatus s" .
next
  assume n: "no_json_array (llm_at w (iteration s))"
  from generateFixes_no_array[OF assms n]
  show g: "generateFixes (llm_at w (iteration s)) (json_parse w) (work_tree s) (currentOutput s)
            = Inr []" .
  from iteration_body_no_fixes[OF g]
  show "\<exists>s'. iteration_body w s = (Break, s')
          \<and> timeline s' = timeline s @ [(iteration s, NO_FIXES)]
          \<and> finalStatus s' = finalStatus s" .
next
  show "no_json_array (llm_at w (iteration s)) \<longleftrightarrow>
          (\<exists>content. invokeWithFallback (llm_at w (iteration s)) = Inr content
                     \<and> \<not> has_bracket_pair (trim content))"
    by (rule no_json_array_plain)
qed

theorem C1_witness:
  "(\<exists>s'. iteration_body world_rate_limited example_state = (Break, s')
        \<and> timeline s' = [(1, APPLY_FAILED)] \<and> finalStatus s' = FAILED)
   \<and> generateFixes (llm_at world_rate_limited 1) (json_parse world_rate_limited) Map.empty
        ''SyntaxError''
       = Inr [placeholder \<lparr> file = None, lineNumber = None, bugType = SYNTAX,
                             rawMessage = ''SyntaxError'' \<rparr>]
   \<and> (\<exists>s'. iteration_body world_no_json example_state = (Break, s')
        \<and> timeline s' = [(1, NO_FIXES)] \<and> finalStatus s' = FAILED)"
proof -
  have st: "iteration example_state = 1" "currentOutput example_state = ''SyntaxError''"
      "work_tree example_state = Map.empty" "timeline example_state = []"
      "finalStatus example_state = FAILED"
    by (simp_all add: example_state_def initial_def)
  have h: "\<not> list_ex (context_read_throws (work_tree example_state))
               (parseErrorLog (currentOutput example_state))"
    unfolding st by (rule no_context_read_SyntaxError)
  have rl: "\<forall>m a. \<exists>msg. llm_at world_rate_limited (iteration example_state) m a = Rejects msg
                        \<and> is429 msg"
    by (simp add: world_rate_limited_def is429_example)
  have nj: "no_json_array (llm_at world_no_json (iteration example_state))"
    by (simp add: world_no_json_def no_json_example)
  from C1_degraded_mode[OF h, of world_rate_limited] rl
  have a: "generateFixes (llm_at world_rate_limited (iteration example_state))
             (json_parse world_rate_limited) (work_tree example_state)
             (currentOutput example_state)
            = Inr (map placeholder (parseErrorLog (currentOutput example_state)))"
    and b: "\<exists>s'. iteration_body world_rate_limited example_state = (Break, s')
              \<and> timeline s' = timeline example_state @
                   [(iteration example_state,
                     if parseErrorLog (currentOutput example_state) = []
                     then NO_FIXES else APPLY_FAILED)]
              \<and> finalStatus s' = finalStatus example_state"
    by blast+
  from C1_degraded_mode[OF h, of world_no_json] nj
  have c: "\<exists>s'. iteration_body world_no_json example_state = (Break, s')
              \<and> timeline s' = timeline example_state @ [(iteration example_state, NO_FIXES)]
              \<and> finalStatus s' = finalStatus example_state"
    by blast
  from a b c show ?thesis
    unfolding st by (simp add: parse_SyntaxError)
qed

section \<open>Timeline bound: results\<close>

text \<open>
  C2 (as stated): the timeline has at most \<open>RETRY_LIMIT + 1\<close> entries. An iteration whose
  retest fails and whose CI run then succeeds appends two entries, \<open>FAILED\<close> and
  \<open>CI_PASSED\<close>: with \<open>RETRY_LIMIT = 1\<close> the timeline has three.
\<close>

theorem C2_ci_entry_counterexample:
  "timeline (final (run world_ci_passes 1 example_request))
     = [(0, FAILED), (1, FAILED), (1, CI_PASSED)]
   \<and> \<not> length (timeline (final (run world_ci_passes 1 example_request))) \<le> 1 + 1"
  using run_ci_passes[of 1] by simp

text \<open>
  C2 (amended): for every run and every value of \<open>RETRY_LIMIT\<close>, the timeline has at
  most \<open>max(RETRY_LIMIT, 0) + 2\<close> entries: one for the initial analysis, at most one per
  repair iteration, and at most one additional \<open>CI_PASSED\<close> entry; without that entry
  the bound is \<open>max(RETRY_LIMIT, 0) + 1\<close>. The timeline of the report, when there is a
  report, is this timeline.
\<close>

theorem C2_timeline_bound:
  "length (timeline (final (run w RETRY_LIMIT request))) \<le> nat RETRY_LIMIT + 2
   \<and> length (timeline (final (run w RETRY_LIMIT request)))
       \<le> nat RETRY_LIMIT + 1
         + count_status CI_PASSED (timeline (final (run w RETRY_LIMIT request)))
   \<and> count_status CI_PASSED (timeline (final (run w RETRY_LIMIT request))) \<le> 1
   \<and> (report (run w RETRY_LIMIT request) = None
        \<or> map_option rep_timeline (report (run w RETRY_LIMIT request))
            = Some (timeline (final (run w RETRY_LIMIT request))))"
  using run_effect[of w RETRY_LIMIT request] by auto

section \<open>Iteration count: results\<close>

text \<open>
  C4: the \<open>iterationCount\<close> given to the scoring function is the number of repair
  iterations that ran. \<^verbatim>\<open>buildResults\<close> computes it as \<^verbatim>\<open>this.timeline.length - 1\<close>; in
  the run below one iteration ran (the loop body was entered once) and its two timeline
  entries make the count \<open>2\<close>. In general the count is the number of iterations plus
  the number of \<open>CI_PASSED\<close> entries (\<open>run_effect\<close>).
\<close>

theorem C4_iterationCount_counts_ci_entry:
  "(\<exists>rep. report (run world_ci_passes 5 example_request) = Some rep
        \<and> rep_scoreBreakdown rep
            = computeScore (elapsed_ms world_ci_passes) (int (rep_totalCommits rep))
                (int (rep_totalFixes rep)) 2)
   \<and> iterationCount (final (run world_ci_passes 5 example_request)) = 2
   \<and> bodiesRun (final (run world_ci_passes 5 example_request)) = 1"
proof -
  have ic: "iterationCount (final (run world_ci_passes 5 example_request)) = 2"
    using run_ci_passes[of 5] by (simp add: iterationCount_def)
  have sv: "save_ok world_ci_passes" by (simp add: world_ci_passes_def)
  from report_run[OF parseRepoUrl_example sv, of 5 "''t''" "''l''"] ic run_ci_passes[of 5]
  show ?thesis unfolding example_request_def by auto
qed

section \<open>Working-tree cleanup: results\<close>

text \<open>
  C7: after the terminal event the directory \<^verbatim>\<open>tmp/{runId}\<close> does not exist, on every
  exit path. \<^verbatim>\<open>run\<close> sets \<^verbatim>\<open>repoDir\<close> only when \<^verbatim>\<open>analyze\<close> returns, and the cleanup
  is guarded by \<^verbatim>\<open>if (repoDir)\<close>. When the clone fails, or when the first test run
  throws after the clone, the directory made by \<^verbatim>\<open>fs.ensureDir\<close> is still there after
  \<^verbatim>\<open>pipeline_done\<close> was sent and the promise resolved.
\<close>

theorem C7_tmp_dir_left_behind:
  "tmp_exists (final (run world_clone_fails 5 example_request))
   \<and> events (final (run world_clone_fails 5 example_request))
       = [''pipeline_start'', ''pipeline_done'']
   \<and> rejected (run world_clone_fails 5 example_request) = None
   \<and> tmp_exists (final (run world_pull_fails 5 example_request))
   \<and> work_tree (final (run world_pull_fails 5 example_request)) ''a.py''
       = Some (File ''def f()'')
   \<and> events (final (run world_pull_fails 5 example_request))
       = [''pipeline_start'', ''pipeline_done'']
   \<and> rejected (run world_pull_fails 5 example_request) = None"
proof -
  let ?s0 = "broadcast ''pipeline_start'' initial"
  have a1: "analyze world_clone_fails ?s0
              = (Inl ''git clone failed'', ?s0\<lparr>tmp_exists := True, work_tree := Map.empty\<rparr>)"
    by (simp add: analyze_def cloneRepo_def Let_def world_clone_fails_def world_ci_passes_def)
  have a2: "analyze world_pull_fails ?s0
              = (Inl ''pull access denied'',
                 ?s0\<lparr>tmp_exists := True, work_tree := [''a.py'' \<mapsto> File ''def f()'']\<rparr>)"
    by (simp add: analyze_def cloneRepo_def Let_def world_pull_fails_def world_ci_passes_def
          runTests_def runInDockerContainer_def)
  have sv: "save_ok world_clone_fails" "save_ok world_pull_fails"
    by (simp_all add: world_clone_fails_def world_pull_fails_def world_ci_passes_def)
  note r1 = run_analysis_throws[OF parseRepoUrl_example sv(1) a1, of 5 "''t''" "''l''"]
  note r2 = run_analysis_throws[OF parseRepoUrl_example sv(2) a2, of 5 "''t''" "''l''"]
  note p1 = report_run[OF parseRepoUrl_example sv(1), of 5 "''t''" "''l''"]
  note p2 = report_run[OF parseRepoUrl_example sv(2), of 5 "''t''" "''l''"]
  from r1 r2 p1 p2 show ?thesis
    unfolding example_request_def
    by (auto simp: broadcast_def addTimeline_def initial_def)
qed
end
